theory Spec2Isabelle
  imports Main "HOL-Library.Sublist"
begin

section \<open>Errors and paths\<close>

text \<open>
  Exceptions of the exporter are values. \<open>SystemExit n\<close> is \<open>sys.exit(n)\<close>;
  \<open>OSError\<close> stands for every exception of \<open>shutil\<close> and \<open>pathlib\<close>
  (missing source, existing destination, permissions, full disk); \<open>ParseError\<close> is
  whatever the naming parser raises; \<open>DatabaseError\<close> is a failed batch write.
\<close>

datatype py_error = ValueError | IndexError | OSError | ParseError | DatabaseError | SystemExit nat

text \<open>
  A \<open>pathlib.Path\<close> is the list of its \<open>parts\<close>; an absolute path starts with the
  part \<open>''/''\<close>. \<open>split_on\<close> is \<open>str.split(sep)\<close>.
\<close>

type_synonym path = "string list"

fun split_on :: "char \<Rightarrow> string \<Rightarrow> string list" where
  "split_on c [] = [[]]"
| "split_on c (x # xs) =
     (if x = c then [] # split_on c xs
      else (case split_on c xs of [] \<Rightarrow> [[x]] | w # ws \<Rightarrow> (x # w) # ws))"

text \<open>
  The parts of one string segment: split at the slashes, empty and \<open>.\<close> components
  dropped, a leading slash kept as the root part.
\<close>

definition parts_of :: "string \<Rightarrow> path" where
  "parts_of s =
     (let cs = filter (\<lambda>c. c \<noteq> [] \<and> c \<noteq> ''.'') (split_on CHR ''/'' s)
      in if s \<noteq> [] \<and> hd s = CHR ''/'' then ''/'' # cs else cs)"

text \<open>\<open>p / q\<close> for two paths: an absolute right operand replaces the left one.\<close>

definition joinpath :: "path \<Rightarrow> path \<Rightarrow> path" where
  "joinpath p q = (case q of [] \<Rightarrow> p | r # _ \<Rightarrow> if r = ''/'' then q else p @ q)"

text \<open>\<open>p / s\<close> for a path and a string segment.\<close>

definition div_str :: "path \<Rightarrow> string \<Rightarrow> path" where
  "div_str p s = joinpath p (parts_of s)"

text \<open>\<open>Path(*segments)\<close>: the segments joined from left to right.\<close>

definition Path_of :: "string list \<Rightarrow> path" where
  "Path_of segs = foldl div_str [] segs"

text \<open>\<open>Path.name\<close>: the final part, empty for the root and for the empty path.\<close>

definition path_name :: "path \<Rightarrow> string" where
  "path_name p = (if p = [] \<or> p = [''/''] then [] else last p)"

text \<open>\<open>list.index(x)\<close>: the position of the first occurrence, ValueError when there is none.\<close>

fun list_index :: "'a list \<Rightarrow> 'a \<Rightarrow> py_error + nat" where
  "list_index [] x = Inl ValueError"
| "list_index (y # ys) x =
     (if y = x then Inr 0
      else (case list_index ys x of Inl e \<Rightarrow> Inl e | Inr i \<Rightarrow> Inr (Suc i)))"

section \<open>Configuration and the naming helpers\<close>

record dpdash_name =
  study :: string
  subject :: string
  data_type :: string

text \<open>
  What the exporter reads through \<open>config_file\<close>: the export root
  (\<open>orchestrator.get_data_root\<close>), the ordered study list
  (\<open>orchestrator.get_studies\<close>), and the two naming helpers
  \<open>dpdash.parse_dpdash_name\<close> and \<open>utils.camel_case_split\<close>, whose code is
  outside the exporter and which are therefore parameters here.
\<close>

record config =
  get_data_root :: path
  get_studies :: "string list"
  parse_dpdash_name :: "string \<Rightarrow> py_error + dpdash_name"
  camel_case_split :: "string \<Rightarrow> string list"

text \<open>
  Modelled from the spec: \<open>dpdash.parse_dpdash_name\<close> is missing from the sources.
  The spec's parser decodes an interview identifier into study, subject and data type
  or fails with a parse error; its example \<open>ChicagoA-XX1-followupInterview\<close> fixes
  the fields as the first three dash-separated ones.
\<close>

definition spec_parse_dpdash_name :: "string \<Rightarrow> py_error + dpdash_name" where
  "spec_parse_dpdash_name name =
     (case split_on CHR ''-'' name of
        st # su # dt # _ \<Rightarrow> Inr \<lparr>study = st, subject = su, data_type = dt\<rparr>
      | _ \<Rightarrow> Inl ParseError)"

text \<open>
  Modelled from the spec: \<open>utils.camel_case_split\<close> is missing from the sources.
  The spec splits a camel-case identifier into tokens at the case boundaries: a new
  token starts at every upper-case letter.
\<close>

definition is_upper :: "char \<Rightarrow> bool" where
  "is_upper c = (65 \<le> (of_char c :: nat) \<and> (of_char c :: nat) \<le> 90)"

fun spec_camel_case_split :: "string \<Rightarrow> string list" where
  "spec_camel_case_split [] = []"
| "spec_camel_case_split (c # cs) =
     (case spec_camel_case_split cs of
        [] \<Rightarrow> [[c]]
      | w # ws \<Rightarrow> if is_upper (hd w) then [c] # w # ws else (c # w) # ws)"

section \<open>Path resolver\<close>

text \<open>
  An exportable asset is the tuple (path, type, export type, tag) of the source; the
  type and the export type are plain strings there.
\<close>

type_synonym exportable_asset = "path \<times> string \<times> string \<times> string"

definition construct_export_path :: "config \<Rightarrow> string \<Rightarrow> string \<Rightarrow> py_error + path" where
  "construct_export_path config_file interview_name export_type =
     (case parse_dpdash_name config_file interview_name of
        Inl e \<Rightarrow> Inl e
      | Inr dpdash_dict \<Rightarrow>
          (case camel_case_split config_file (data_type dpdash_dict) of
             [] \<Rightarrow> Inl IndexError
           | interview_type # _ \<Rightarrow>
               Inr (div_str (div_str (div_str (div_str (div_str (div_str
                      (get_data_root config_file) export_type) (study dpdash_dict))
                      ''processed'') (subject dpdash_dict)) ''interviews'') interview_type)))"

definition get_export_path :: "config \<Rightarrow> string \<Rightarrow> exportable_asset \<Rightarrow> py_error + path" where
  "get_export_path config_file interview_name exportable =
     (case exportable of (asset_path, _, asset_export_type, asset_tag) \<Rightarrow>
        (case construct_export_path config_file interview_name asset_export_type of
           Inl e \<Rightarrow> Inl e
         | Inr export_path \<Rightarrow>
             if asset_tag = ''face_processing_pipeline''
             then Inr (div_str export_path (path_name asset_path))
             else (case list_index asset_path ''processed'' of
                     Inl e \<Rightarrow> Inl e
                   | Inr processed_idx0 \<Rightarrow>
                       (case (if ''decrypted'' \<in> set asset_path
                              then list_index asset_path ''decrypted''
                              else Inr processed_idx0) of
                          Inl e \<Rightarrow> Inl e
                        | Inr processed_idx \<Rightarrow>
                            Inr (joinpath export_path
                                   (Path_of (drop (processed_idx + 1) asset_path)))))))"

section \<open>Database\<close>

text \<open>
  The tables the selection query reads, with the columns it names. \<open>pdf_reports\<close>
  is kept as its \<open>interview_name\<close> column; \<open>study_id\<close> is the column of
  \<open>load_openface\<close>; both columns are taken to be \<open>NOT NULL\<close>.
\<close>

record load_openface_row =
  lof_interview_name :: string
  lof_study_id :: string

text \<open>
  Modelled from the spec: \<open>pipeline.models.exported_assets.ExportedAsset\<close> and its
  \<open>to_sql\<close> are missing from the sources. The spec's export record holds the
  interview name, the source path, the kind, the access tier, the tag and the
  destination path; \<open>to_sql\<close> is the insertion of that row into the ledger table
  \<open>exported_assets\<close>.
\<close>

record ExportedAsset =
  ea_interview_name :: string
  ea_asset_path :: path
  ea_asset_type :: string
  ea_asset_export_type :: string
  ea_asset_tag :: string
  ea_asset_destination :: path

datatype sql_query = Insert_exported_assets ExportedAsset

definition to_sql :: "ExportedAsset \<Rightarrow> sql_query" where
  "to_sql asset = Insert_exported_assets asset"

fun inserted_row :: "sql_query \<Rightarrow> ExportedAsset" where
  "inserted_row (Insert_exported_assets asset) = asset"

section \<open>Filesystem and the world\<close>

datatype node = File string | Dir

text \<open>
  What the side effects of the exporter leave behind, in the order they happen:
  the copies, the batch write of the ledger, the deletions, and the messages of the
  scheduler loop (\<open>logger.info\<close>, \<open>orchestrator.log\<close>, \<open>orchestrator.snooze\<close>).
\<close>

datatype effect =
    Copied path path
  | Ledger_write "ExportedAsset list"
  | Deleted path
  | Exporting string
  | Switching string
  | Restarting string
  | Log_exported nat
  | Snooze

text \<open>
  The world the exporter runs in: the tables of the selection query, the ledger, the
  rows that the three artifact queries return for an interview name (their joins are
  over upstream tables that the exporter only reads), the filesystem, the failures
  that come from outside (a copy, a deletion or a batch write that the environment
  refuses), and the trace of effects.
\<close>

record world =
  pdf_reports :: "string list"
  load_openface :: "load_openface_row list"
  exported_assets :: "ExportedAsset list"
  vs_path_rows :: "string \<Rightarrow> string list"
  video_path_rows :: "string \<Rightarrow> string list"
  of_processed_path_rows :: "string \<Rightarrow> string list"
  fs :: "path \<Rightarrow> node option"
  copy_fault :: "path \<Rightarrow> bool"
  rm_fault :: "path \<Rightarrow> bool"
  db_fault :: "sql_query list \<Rightarrow> bool"
  effects :: "effect list"

definition emit :: "effect \<Rightarrow> world \<Rightarrow> world" where
  "emit e w = w\<lparr>effects := effects w @ [e]\<rparr>"

definition path_exists :: "world \<Rightarrow> path \<Rightarrow> bool" where
  "path_exists w p = (fs w p \<noteq> None)"

definition is_file :: "world \<Rightarrow> path \<Rightarrow> bool" where
  "is_file w p = (case fs w p of Some (File _) \<Rightarrow> True | _ \<Rightarrow> False)"

definition is_dir :: "world \<Rightarrow> path \<Rightarrow> bool" where
  "is_dir w p = (fs w p = Some Dir)"

text \<open>\<open>Path.parent\<close> and \<open>Path.stem\<close>.\<close>

definition path_parent :: "path \<Rightarrow> path" where
  "path_parent p = (if p = [] \<or> p = [''/''] then p else butlast p)"

definition rfind_dot :: "string \<Rightarrow> nat option" where
  "rfind_dot s =
     (case list_index (rev s) CHR ''.'' of Inl _ \<Rightarrow> None | Inr i \<Rightarrow> Some (length s - 1 - i))"

definition path_stem :: "path \<Rightarrow> string" where
  "path_stem p =
     (let name = path_name p
      in case rfind_dot name of
           None \<Rightarrow> name
         | Some i \<Rightarrow> if 0 < i \<and> i < length name - 1 then take i name else name)"

text \<open>
  \<open>Path.mkdir(parents=True, exist_ok=True)\<close>: every missing ancestor and the path
  itself become directories; a file in the way is an error.
\<close>

definition mkdir_parents :: "path \<Rightarrow> world \<Rightarrow> py_error + world" where
  "mkdir_parents p w =
     (if list_ex (is_file w) (prefixes p) then Inl OSError
      else Inr (w\<lparr>fs := (\<lambda>q. if prefix q p \<and> fs w q = None then Some Dir else fs w q)\<rparr>))"

text \<open>
  \<open>shutil.copy2(source, destination)\<close>: the source must be a file; an existing
  directory as destination receives the file under its own name (the base name of the
  source, one part); the directory of the target must exist. A failure leaves the
  world as it was.
\<close>

definition copy2 :: "path \<Rightarrow> path \<Rightarrow> world \<Rightarrow> py_error + world" where
  "copy2 source destination w =
     (if copy_fault w source then Inl OSError
      else case fs w source of
             Some (File content) \<Rightarrow>
               (let target = (if is_dir w destination \<and> path_name source \<noteq> []
                              then destination @ [path_name source] else destination)
                in if target = source \<or> is_dir w target \<or> \<not> is_dir w (path_parent target)
                   then Inl OSError
                   else Inr (emit (Copied source target)
                               (w\<lparr>fs := (fs w)(target \<mapsto> File content)\<rparr>)))
           | _ \<Rightarrow> Inl OSError)"

text \<open>
  \<open>shutil.copytree(src, dst)\<close>: the source must be a directory and the destination
  must not exist; the missing ancestors of the destination are created and every
  node of the tree below the source is written below the destination.
\<close>

definition copytree :: "path \<Rightarrow> path \<Rightarrow> world \<Rightarrow> py_error + world" where
  "copytree src dst w =
     (if copy_fault w src \<or> \<not> is_dir w src \<or> path_exists w dst
         \<or> list_ex (is_file w) (prefixes dst)
      then Inl OSError
      else Inr (emit (Copied src dst)
                  (w\<lparr>fs := (\<lambda>q. if prefix dst q
                                 then (case fs w (src @ drop (length dst) q) of
                                         None \<Rightarrow> fs w q
                                       | Some n \<Rightarrow> Some n)
                                 else if prefix q dst \<and> fs w q = None then Some Dir
                                 else fs w q)\<rparr>)))"

text \<open>\<open>Path.unlink()\<close> and \<open>shutil.rmtree(path)\<close>.\<close>

definition unlink :: "path \<Rightarrow> world \<Rightarrow> py_error + world" where
  "unlink p w =
     (if rm_fault w p then Inl OSError
      else Inr (emit (Deleted p) (w\<lparr>fs := (fs w)(p := None)\<rparr>)))"

definition rmtree :: "path \<Rightarrow> world \<Rightarrow> py_error + world" where
  "rmtree p w =
     (if rm_fault w p then Inl OSError
      else Inr (emit (Deleted p) (w\<lparr>fs := (\<lambda>q. if prefix p q then None else fs w q)\<rparr>)))"

text \<open>
  Modelled from the spec: \<open>db.fetch_record\<close> is missing from the sources. It
  returns the value the query selects, and none when the query has no row.
\<close>

definition fetch_record :: "string list \<Rightarrow> string option" where
  "fetch_record rows = (case rows of [] \<Rightarrow> None | r # _ \<Rightarrow> Some r)"

text \<open>
  Modelled from the spec: \<open>db.execute_queries\<close> is missing from the sources. The
  spec's batch write persists all records of the interview in a single durable write,
  all or nothing.
\<close>

definition execute_queries :: "sql_query list \<Rightarrow> world \<Rightarrow> py_error + world" where
  "execute_queries queries w =
     (if db_fault w queries then Inl DatabaseError
      else Inr (emit (Ledger_write (map inserted_row queries))
                  (w\<lparr>exported_assets := exported_assets w @ map inserted_row queries\<rparr>)))"

section \<open>Artifact discovery\<close>

text \<open>
  The selection query: \<open>pdf_reports LEFT JOIN load_openface USING (interview_name)\<close>,
  the rows of the study whose interview name is not in the ledger, one of them taken
  at random. The random order is the parameter \<open>rnd\<close>.
\<close>

definition left_join_using :: "string list \<Rightarrow> load_openface_row list \<Rightarrow> (string \<times> load_openface_row option) list" where
  "left_join_using ps ls =
     concat (map (\<lambda>p. case filter (\<lambda>l. lof_interview_name l = p) ls of
                         [] \<Rightarrow> [(p, None)]
                       | m # ms \<Rightarrow> map (\<lambda>l. (p, Some l)) (m # ms)) ps)"

definition ready_rows :: "world \<Rightarrow> string \<Rightarrow> string list" where
  "ready_rows w sid =
     map fst (filter (\<lambda>(n, l). (case l of None \<Rightarrow> False | Some r \<Rightarrow> lof_study_id r = sid)
                               \<and> n \<notin> set (map ea_interview_name (exported_assets w)))
                (left_join_using (pdf_reports w) (load_openface w)))"

definition order_by_random_limit_1 :: "nat \<Rightarrow> 'a list \<Rightarrow> 'a list" where
  "order_by_random_limit_1 rnd rows = (if rows = [] then [] else [rows ! (rnd mod length rows)])"

definition get_interview_name_to_process :: "world \<Rightarrow> string \<Rightarrow> nat \<Rightarrow> string option" where
  "get_interview_name_to_process w sid rnd =
     fetch_record (order_by_random_limit_1 rnd (ready_rows w sid))"

definition get_pipeline_streams :: "world \<Rightarrow> string \<Rightarrow> path list" where
  "get_pipeline_streams w iname = map parts_of (vs_path_rows w iname)"

definition get_pipeline_frames :: "world \<Rightarrow> string \<Rightarrow> path option" where
  "get_pipeline_frames w iname =
     (case fetch_record (video_path_rows w iname) of
        None \<Rightarrow> None
      | Some v \<Rightarrow>
          if v = [] then None
          else (let video_path = parts_of v;
                    frames_path = div_str (div_str (path_parent video_path) ''frames'')
                                    (path_stem video_path)
                in if path_exists w frames_path then Some frames_path else None))"

definition get_openface_assets :: "world \<Rightarrow> string \<Rightarrow> path list" where
  "get_openface_assets w iname = map parts_of (of_processed_path_rows w iname)"

definition get_pipeline_exports :: "world \<Rightarrow> string \<Rightarrow> exportable_asset list" where
  "get_pipeline_exports w iname =
     map (\<lambda>stream. (stream, ''file'', ''PROTECTED'', ''streams'')) (get_pipeline_streams w iname)
     @ (case get_pipeline_frames w iname of
          None \<Rightarrow> []
        | Some frames \<Rightarrow> [(frames, ''directory'', ''PROTECTED'', ''frames'')])
     @ map (\<lambda>asset. (asset, ''directory'', ''PROTECTED'', ''openface''))
         (get_openface_assets w iname)"

section \<open>Transfer\<close>

text \<open>
  One turn of the copy loop of the main program: the destination is resolved, the
  asset is copied according to its type (not in debug mode), and its insertion is the
  query that joins the batch. An exception leaves the loop with the world of that
  moment; an unknown asset type is \<open>sys.exit(1)\<close>.
\<close>

definition copy_asset :: "config \<Rightarrow> bool \<Rightarrow> string \<Rightarrow> exportable_asset \<Rightarrow> world \<Rightarrow> (py_error \<times> world) + (sql_query \<times> world)" where
  "copy_asset config_file debug iname exportable w =
     (case exportable of (apath, atype, aexport_type, atag) \<Rightarrow>
        (case get_export_path config_file iname exportable of
           Inl e \<Rightarrow> Inl (e, w)
         | Inr destination_path \<Rightarrow>
             (let asset = \<lparr>ea_interview_name = iname, ea_asset_path = apath,
                           ea_asset_type = atype, ea_asset_export_type = aexport_type,
                           ea_asset_tag = atag, ea_asset_destination = destination_path\<rparr>
              in if atype = ''file'' then
                   (if debug then Inr (to_sql asset, w)
                    else (case (if \<not> path_exists w (path_parent destination_path)
                                then mkdir_parents (path_parent destination_path) w
                                else Inr w) of
                            Inl e \<Rightarrow> Inl (e, w)
                          | Inr w1 \<Rightarrow>
                              (case copy2 apath destination_path w1 of
                                 Inl e \<Rightarrow> Inl (e, w1)
                               | Inr w2 \<Rightarrow> Inr (to_sql asset, w2))))
                 else if atype = ''directory'' then
                   (if debug then Inr (to_sql asset, w)
                    else (case copytree apath destination_path w of
                            Inl e \<Rightarrow> Inl (e, w)
                          | Inr w1 \<Rightarrow> Inr (to_sql asset, w1)))
                 else Inl (SystemExit 1, w))))"

fun copy_assets :: "config \<Rightarrow> bool \<Rightarrow> string \<Rightarrow> exportable_asset list \<Rightarrow> sql_query list \<Rightarrow> world \<Rightarrow> (py_error \<times> world) + (sql_query list \<times> world)" where
  "copy_assets config_file debug iname [] queries w = Inr (queries, w)"
| "copy_assets config_file debug iname (exportable # rest) queries w =
     (case copy_asset config_file debug iname exportable w of
        Inl ew \<Rightarrow> Inl ew
      | Inr (query, w1) \<Rightarrow> copy_assets config_file debug iname rest (queries @ [query]) w1)"

text \<open>The clean-up loop: every source but the frames is unlinked or removed as a tree.\<close>

fun clean_up :: "exportable_asset list \<Rightarrow> world \<Rightarrow> (py_error \<times> world) + world" where
  "clean_up [] w = Inr w"
| "clean_up ((apath, atype, aexport_type, atag) # rest) w =
     (if atag = ''frames'' then clean_up rest w
      else if is_file w apath then
        (case unlink apath w of Inl e \<Rightarrow> Inl (e, w) | Inr w1 \<Rightarrow> clean_up rest w1)
      else if is_dir w apath then
        (case rmtree apath w of Inl e \<Rightarrow> Inl (e, w) | Inr w1 \<Rightarrow> clean_up rest w1)
      else clean_up rest w)"

text \<open>
  The transfer of one interview's assets: the copy loop, then (not in debug mode) the
  batch write and the clean-up.
\<close>

definition transfer :: "config \<Rightarrow> bool \<Rightarrow> string \<Rightarrow> exportable_asset list \<Rightarrow> world \<Rightarrow> (py_error \<times> world) + world" where
  "transfer config_file debug iname exports w =
     (case copy_assets config_file debug iname exports [] w of
        Inl ew \<Rightarrow> Inl ew
      | Inr (queries, w1) \<Rightarrow>
          if debug then Inr w1
          else (case execute_queries queries w1 of
                  Inl e \<Rightarrow> Inl (e, w1)
                | Inr w2 \<Rightarrow> clean_up exports w2))"

definition export_interview :: "config \<Rightarrow> bool \<Rightarrow> string \<Rightarrow> world \<Rightarrow> (py_error \<times> world) + world" where
  "export_interview config_file debug iname w =
     transfer config_file debug iname (get_pipeline_exports w iname) (emit (Exporting iname) w)"

section \<open>Scheduler loop\<close>

record sched =
  study_id :: string
  COUNTER :: nat

text \<open>The state before the loop: the cursor on \<open>studies[0]\<close>, the counter at 0.\<close>

definition initial_sched :: "config \<Rightarrow> py_error + sched" where
  "initial_sched config_file =
     (case get_studies config_file of
        [] \<Rightarrow> Inl IndexError
      | s # _ \<Rightarrow> Inr \<lparr>study_id = s, COUNTER = 0\<rparr>)"

text \<open>
  One turn of \<open>while True\<close>. The loop has no exception handler: an exception of the
  body ends the program, here the result \<open>Inl\<close> with the world of that moment.
\<close>

definition loop_body :: "config \<Rightarrow> bool \<Rightarrow> nat \<Rightarrow> sched \<times> world \<Rightarrow> (py_error \<times> world) + (sched \<times> world)" where
  "loop_body config_file debug rnd sw =
     (case sw of (st, w) \<Rightarrow>
        (let studies = get_studies config_file
         in case get_interview_name_to_process w (study_id st) rnd of
              None \<Rightarrow>
                if studies = [] then Inl (IndexError, w)
                else if study_id st = last studies then
                  (let w1 = (if COUNTER st > 0 then emit (Log_exported (COUNTER st)) w else w);
                       c1 = (if COUNTER st > 0 then 0 else COUNTER st);
                       w2 = emit Snooze w1
                   in Inr (\<lparr>study_id = hd studies, COUNTER = c1\<rparr>,
                           emit (Restarting (hd studies)) w2))
                else
                  (case list_index studies (study_id st) of
                     Inl e \<Rightarrow> Inl (e, w)
                   | Inr i \<Rightarrow>
                       if i + 1 < length studies
                       then Inr (st\<lparr>study_id := studies ! (i + 1)\<rparr>,
                                 emit (Switching (studies ! (i + 1))) w)
                       else Inl (IndexError, w))
            | Some iname \<Rightarrow>
                (case export_interview config_file debug iname w of
                   Inl ew \<Rightarrow> Inl ew
                 | Inr w1 \<Rightarrow> Inr (st\<lparr>COUNTER := COUNTER st + 1\<rparr>, w1))))"

text \<open>
  The loop never returns; \<open>run_loop n\<close> is the state after \<open>n\<close> turns, or the
  exception that ended the program before. \<open>rnd i\<close> is the random draw of turn \<open>i\<close>.
\<close>

fun run_loop :: "config \<Rightarrow> bool \<Rightarrow> (nat \<Rightarrow> nat) \<Rightarrow> nat \<Rightarrow> sched \<times> world \<Rightarrow> (py_error \<times> world) + (sched \<times> world)" where
  "run_loop config_file debug rnd 0 sw = Inr sw"
| "run_loop config_file debug rnd (Suc n) sw =
     (case loop_body config_file debug (rnd 0) sw of
        Inl ew \<Rightarrow> Inl ew
      | Inr sw1 \<Rightarrow> run_loop config_file debug (\<lambda>i. rnd (Suc i)) n sw1)"

text \<open>
  The start of the main program: the configuration file named on the command line
  must exist; with none named, the default one is used if the user confirms. The
  program exits with status 1 otherwise.
\<close>

definition resolve_config_file :: "string option \<Rightarrow> (string \<Rightarrow> bool) \<Rightarrow> bool \<Rightarrow> string \<Rightarrow> py_error + string" where
  "resolve_config_file args_config file_exists confirmed default_config =
     (if args_config \<noteq> None \<and> args_config \<noteq> Some []
      then (if \<not> file_exists (the args_config) then Inl (SystemExit 1)
            else Inr (the args_config))
      else (if confirmed then Inr default_config else Inl (SystemExit 1)))"

text \<open>
  The exit status of the interpreter: the argument of \<open>sys.exit\<close>, and 1 for any
  exception that nothing catches.
\<close>

fun exit_status :: "py_error \<Rightarrow> nat" where
  "exit_status (SystemExit n) = n"
| "exit_status e = 1"

section \<open>Auxiliary notions and examples\<close>

text \<open>A string that is one part of a path: not empty, not \<open>.\<close>, without a slash.\<close>

definition clean_segment :: "string \<Rightarrow> bool" where
  "clean_segment s = (s \<noteq> [] \<and> s \<noteq> ''.'' \<and> CHR ''/'' \<notin> set s)"

text \<open>
  The marker of the processing root as the specification words it: \<open>decrypted\<close>
  when the path has it, \<open>processed\<close> otherwise; and the components after the
  last occurrence of the marker, which is what the specification appends.
\<close>

definition root_marker :: "path \<Rightarrow> string" where
  "root_marker p = (if ''decrypted'' \<in> set p then ''decrypted'' else ''processed'')"

definition spec_after_last_marker :: "path \<Rightarrow> path" where
  "spec_after_last_marker p = rev (takeWhile (\<lambda>c. c \<noteq> root_marker p) (rev p))"

definition example_config :: config where
  "example_config =
     \<lparr>get_data_root = [''/'', ''export_root''],
      get_studies = [''ChicagoA'', ''ChicagoB''],
      parse_dpdash_name = spec_parse_dpdash_name,
      camel_case_split = spec_camel_case_split\<rparr>"

text \<open>
  The part of the world that the exporter only reads: the upstream tables and the
  failures of the environment.
\<close>

definition upstream :: "world \<Rightarrow> _" where
  "upstream w = (pdf_reports w, load_openface w, vs_path_rows w, video_path_rows w,
     of_processed_path_rows w, copy_fault w, rm_fault w, db_fault w)"

text \<open>The world a run leaves behind, whether it ended by an exception or not.\<close>

fun final_world :: "(py_error \<times> world) + world \<Rightarrow> world" where
  "final_world (Inl (e, w)) = w"
| "final_world (Inr w) = w"

text \<open>
  The order of the effects of one transfer, for the sources \<open>all\<close> of the batch:
  the copies of the sources in their order, then, only once every source is copied,
  one batch write with one row for each source, then nothing but deletions.
\<close>

fun is_deletion :: "effect \<Rightarrow> bool" where
  "is_deletion (Deleted p) = True"
| "is_deletion e = False"

fun ordered_trace :: "path list \<Rightarrow> path list \<Rightarrow> effect list \<Rightarrow> bool" where
  "ordered_trace all (s # rest) (Copied s' t # es) = (s' = s \<and> ordered_trace all rest es)"
| "ordered_trace all [] (Ledger_write rows # es) =
     (map ea_asset_path rows = all \<and> list_all is_deletion es)"
| "ordered_trace all rest [] = True"
| "ordered_trace all rest es = False"

text \<open>The rows that the batch writes of a trace put into the ledger.\<close>

fun ledger_rows :: "effect list \<Rightarrow> ExportedAsset list" where
  "ledger_rows [] = []"
| "ledger_rows (Ledger_write rows # es) = rows @ ledger_rows es"
| "ledger_rows (e # es) = ledger_rows es"

text \<open>The world after a number of turns of the loop, ended or not.\<close>

fun world_after :: "(py_error \<times> world) + (sched \<times> world) \<Rightarrow> world" where
  "world_after (Inl (e, w)) = w"
| "world_after (Inr (st, w)) = w"

text \<open>
  The advances of the cursor to the next study and the snoozes in a trace.
\<close>

fun is_switching :: "effect \<Rightarrow> bool" where
  "is_switching (Switching s) = True"
| "is_switching e = False"

definition advances :: "effect list \<Rightarrow> nat" where
  "advances es = length (filter is_switching es)"

definition snoozes :: "effect list \<Rightarrow> nat" where
  "snoozes es = length (filter (\<lambda>e. e = Snooze) es)"

text \<open>The effects added to the trace between two worlds.\<close>

definition effects_since :: "world \<Rightarrow> world \<Rightarrow> effect list" where
  "effects_since w w' = drop (length (effects w)) (effects w')"

text \<open>
  Every interview with a report has at least one stream or one OpenFace directory, so
  that its export writes at least one row; and the rows of \<open>load_openface\<close>
  give every interview one study.
\<close>

definition all_have_assets :: "world \<Rightarrow> bool" where
  "all_have_assets w =
     (\<forall>iname\<in>set (pdf_reports w).
        vs_path_rows w iname \<noteq> [] \<or> of_processed_path_rows w iname \<noteq> [])"

definition one_study_per_interview :: "world \<Rightarrow> bool" where
  "one_study_per_interview w =
     (\<forall>r1\<in>set (load_openface w). \<forall>r2\<in>set (load_openface w).
        lof_interview_name r1 = lof_interview_name r2 \<longrightarrow> lof_study_id r1 = lof_study_id r2)"

text \<open>A property of the state of the loop that holds unless the process has ended.\<close>

fun unless_ended :: "(sched \<times> world \<Rightarrow> bool) \<Rightarrow> (py_error \<times> world) + (sched \<times> world) \<Rightarrow> bool" where
  "unless_ended P (Inl ew) = True"
| "unless_ended P (Inr sw) = P sw"

text \<open>
  The cursor has reached study \<open>k\<close> of the list from the world \<open>w\<close>: after
  \<open>k\<close> advances and no snooze, with the upstream tables as they were and the
  backlog of every study not yet visited untouched. And: the backlog of the current
  study has been drained, the cursor and the other backlogs being unchanged.
\<close>

definition reached :: "config \<Rightarrow> world \<Rightarrow> nat \<Rightarrow> sched \<times> world \<Rightarrow> bool" where
  "reached cfg w k sw =
     (case sw of (st, w') \<Rightarrow>
        study_id st = get_studies cfg ! k \<and> upstream w' = upstream w
        \<and> (\<forall>sid. sid \<notin> set (take k (get_studies cfg)) \<longrightarrow> ready_rows w' sid = ready_rows w sid)
        \<and> (\<exists>new. effects w' = effects w @ new \<and> advances new = k \<and> snoozes new = 0))"

definition drained :: "sched \<times> world \<Rightarrow> sched \<times> world \<Rightarrow> bool" where
  "drained sw0 sw =
     (case sw0 of (st, w) \<Rightarrow> case sw of (st', w') \<Rightarrow>
        study_id st' = study_id st \<and> upstream w' = upstream w
        \<and> ready_rows w' (study_id st) = []
        \<and> (\<forall>sid. sid \<noteq> study_id st \<longrightarrow> ready_rows w' sid = ready_rows w sid)
        \<and> (\<exists>new. effects w' = effects w @ new \<and> advances new = 0 \<and> snoozes new = 0))"

text \<open>
  An example world: one interview of study \<open>ChicagoA\<close> with a stream, a frames
  directory and an OpenFace directory below \<open>/processed\<close>; the copies of the
  sources in \<open>faulty\<close> fail.
\<close>

definition example_fs :: "path \<Rightarrow> node option" where
  "example_fs = map_of
     [([''/''], Dir),
      ([''/'', ''export_root''], Dir),
      ([''/'', ''processed''], Dir),
      ([''/'', ''processed'', ''s1.mp4''], File ''stream''),
      ([''/'', ''processed'', ''frames''], Dir),
      ([''/'', ''processed'', ''frames'', ''v''], Dir),
      ([''/'', ''processed'', ''frames'', ''v'', ''f1.png''], File ''frame''),
      ([''/'', ''processed'', ''of''], Dir),
      ([''/'', ''processed'', ''of'', ''a.csv''], File ''features'')]"

definition example_world :: "path list \<Rightarrow> world" where
  "example_world faulty =
     \<lparr>pdf_reports = [''ChicagoA-XX1-followupInterview''],
      load_openface = [\<lparr>lof_interview_name = ''ChicagoA-XX1-followupInterview'',
                        lof_study_id = ''ChicagoA''\<rparr>],
      exported_assets = [],
      vs_path_rows = (\<lambda>n. if n = ''ChicagoA-XX1-followupInterview''
                           then [''/processed/s1.mp4''] else []),
      video_path_rows = (\<lambda>n. if n = ''ChicagoA-XX1-followupInterview''
                              then [''/processed/v.mp4''] else []),
      of_processed_path_rows = (\<lambda>n. if n = ''ChicagoA-XX1-followupInterview''
                                     then [''/processed/of''] else []),
      fs = example_fs,
      copy_fault = (\<lambda>p. p \<in> set faulty),
      rm_fault = (\<lambda>p. False),
      db_fault = (\<lambda>qs. False),
      effects = []\<rparr>"

text \<open>The interview of the example world and the assets found for it.\<close>

definition example_interview :: string where
  "example_interview = ''ChicagoA-XX1-followupInterview''"

definition example_exports :: "exportable_asset list" where
  "example_exports =
     [([''/'', ''processed'', ''s1.mp4''], ''file'', ''PROTECTED'', ''streams''),
      ([''/'', ''processed'', ''frames'', ''v''], ''directory'', ''PROTECTED'', ''frames''),
      ([''/'', ''processed'', ''of''], ''directory'', ''PROTECTED'', ''openface'')]"

text \<open>
  A world whose only interview has a report and is loaded, while none of the three
  artifact queries returns a row for it.
\<close>

definition bare_world :: world where
  "bare_world =
     \<lparr>pdf_reports = [''ChicagoA-XX1-followupInterview''],
      load_openface = [\<lparr>lof_interview_name = ''ChicagoA-XX1-followupInterview'',
                        lof_study_id = ''ChicagoA''\<rparr>],
      exported_assets = [],
      vs_path_rows = (\<lambda>n. []),
      video_path_rows = (\<lambda>n. []),
      of_processed_path_rows = (\<lambda>n. []),
      fs = example_fs,
      copy_fault = (\<lambda>p. False),
      rm_fault = (\<lambda>p. False),
      db_fault = (\<lambda>qs. False),
      effects = []\<rparr>"

text \<open>A world with nothing to export in any study.\<close>

definition idle_world :: world where
  "idle_world =
     \<lparr>pdf_reports = [],
      load_openface = [],
      exported_assets = [],
      vs_path_rows = (\<lambda>n. []),
      video_path_rows = (\<lambda>n. []),
      of_processed_path_rows = (\<lambda>n. []),
      fs = example_fs,
      copy_fault = (\<lambda>p. False),
      rm_fault = (\<lambda>p. False),
      db_fault = (\<lambda>qs. False),
      effects = []\<rparr>"

text \<open>Two studies with one interview each, one stream for each interview.\<close>

definition two_study_world :: world where
  "two_study_world =
     \<lparr>pdf_reports = [''ChicagoA-XX1-followupInterview'', ''ChicagoB-YY2-followupInterview''],
      load_openface = [\<lparr>lof_interview_name = ''ChicagoA-XX1-followupInterview'',
                        lof_study_id = ''ChicagoA''\<rparr>,
                       \<lparr>lof_interview_name = ''ChicagoB-YY2-followupInterview'',
                        lof_study_id = ''ChicagoB''\<rparr>],
      exported_assets = [],
      vs_path_rows = (\<lambda>n. if n = ''ChicagoA-XX1-followupInterview'' then [''/processed/s1.mp4'']
                           else if n = ''ChicagoB-YY2-followupInterview'' then [''/processed/s2.mp4'']
                           else []),
      video_path_rows = (\<lambda>n. []),
      of_processed_path_rows = (\<lambda>n. []),
      fs = example_fs([''/'', ''processed'', ''s2.mp4''] \<mapsto> File ''stream''),
      copy_fault = (\<lambda>p. False),
      rm_fault = (\<lambda>p. False),
      db_fault = (\<lambda>qs. False),
      effects = []\<rparr>"

section \<open>Path resolution\<close>

lemma split_on_absent: "c \<notin> set s \<Longrightarrow> split_on c s = [s]"
  by (induction s) auto

lemma parts_of_clean: "clean_segment s \<Longrightarrow> parts_of s = [s]"
  by (cases s) (auto simp: clean_segment_def parts_of_def split_on_absent)

lemma div_str_clean: "clean_segment s \<Longrightarrow> div_str p s = p @ [s]"
  by (auto simp: div_str_def parts_of_clean joinpath_def clean_segment_def)

lemma list_index_absent: "x \<notin> set xs \<Longrightarrow> list_index xs x = Inl ValueError"
  by (induction xs) auto

lemma list_index_present:
  "x \<in> set xs \<Longrightarrow> list_index xs x = Inr (length (takeWhile (\<lambda>y. y \<noteq> x) xs))"
  by (induction xs) auto

lemma drop_takeWhile_tl: "drop (length (takeWhile P xs) + 1) xs = tl (dropWhile P xs)"
  by (induction xs) auto

lemma example_stream_parts:
  "parts_of ''/data/processed/decrypted/ChicagoA/XX1/video/stream_1.mp4'' =
     [''/'', ''data'', ''processed'', ''decrypted'', ''ChicagoA'', ''XX1'', ''video'',
      ''stream_1.mp4'']"
  by (simp add: parts_of_def)

lemma example_construct_export_path:
  "construct_export_path example_config ''ChicagoA-XX1-followupInterview'' ''PROTECTED'' =
     Inr [''/'', ''export_root'', ''PROTECTED'', ''ChicagoA'', ''processed'', ''XX1'',
          ''interviews'', ''followup'']"
  by (simp add: construct_export_path_def example_config_def spec_parse_dpdash_name_def
      is_upper_def div_str_def parts_of_def joinpath_def)

text \<open>
  C4, as amended. For an asset outside the flattened family whose source path has a
  \<open>processed\<close> component, the destination is the base export path joined with
  the components of the source path after the FIRST occurrence of the marker, the
  marker being \<open>decrypted\<close> when the path has it and \<open>processed\<close> otherwise.
  For the source \<open>/data/processed/decrypted/ChicagoA/XX1/video/stream_1.mp4\<close> the
  appended relative path is \<open>ChicagoA/XX1/video/stream_1.mp4\<close>: it begins after
  \<open>decrypted\<close>.
\<close>

theorem get_export_path_after_first_marker:
  assumes "atag \<noteq> ''face_processing_pipeline''"
    and "construct_export_path cfg iname aexp = Inr base"
  shows "(''processed'' \<in> set apath \<longrightarrow>
            get_export_path cfg iname (apath, atype, aexp, atag) =
              Inr (joinpath base
                     (Path_of (tl (dropWhile (\<lambda>c. c \<noteq> root_marker apath) apath)))))
         \<and> get_export_path cfg iname
              (parts_of ''/data/processed/decrypted/ChicagoA/XX1/video/stream_1.mp4'',
               atype, aexp, atag) =
             Inr (base @ [''ChicagoA'', ''XX1'', ''video'', ''stream_1.mp4''])"
proof
  show "''processed'' \<in> set apath \<longrightarrow>
          get_export_path cfg iname (apath, atype, aexp, atag) =
            Inr (joinpath base
                   (Path_of (tl (dropWhile (\<lambda>c. c \<noteq> root_marker apath) apath))))"
    using assms
    by (simp add: get_export_path_def root_marker_def list_index_present drop_takeWhile_tl
        del: One_nat_def)
next
  show "get_export_path cfg iname
          (parts_of ''/data/processed/decrypted/ChicagoA/XX1/video/stream_1.mp4'',
           atype, aexp, atag) =
        Inr (base @ [''ChicagoA'', ''XX1'', ''video'', ''stream_1.mp4''])"
    using assms
    by (simp add: example_stream_parts get_export_path_def Path_of_def div_str_def
        parts_of_def joinpath_def)
qed

theorem get_export_path_after_first_marker_witness:
  "get_export_path example_config ''ChicagoA-XX1-followupInterview''
     ([''/'', ''data'', ''processed'', ''run1'', ''processed'', ''stream_1.mp4''],
      ''file'', ''PROTECTED'', ''streams'') =
     Inr [''/'', ''export_root'', ''PROTECTED'', ''ChicagoA'', ''processed'', ''XX1'',
          ''interviews'', ''followup'', ''run1'', ''processed'', ''stream_1.mp4'']
   \<and> get_export_path example_config ''ChicagoA-XX1-followupInterview''
       (parts_of ''/data/processed/decrypted/ChicagoA/XX1/video/stream_1.mp4'',
        ''file'', ''PROTECTED'', ''streams'') =
     Inr [''/'', ''export_root'', ''PROTECTED'', ''ChicagoA'', ''processed'', ''XX1'',
          ''interviews'', ''followup'', ''ChicagoA'', ''XX1'', ''video'', ''stream_1.mp4'']"
  using get_export_path_after_first_marker
    [of "''streams''" example_config "''ChicagoA-XX1-followupInterview''" "''PROTECTED''"
      "[''/'', ''export_root'', ''PROTECTED'', ''ChicagoA'', ''processed'', ''XX1'',
        ''interviews'', ''followup'']"
      "[''/'', ''data'', ''processed'', ''run1'', ''processed'', ''stream_1.mp4'']"
      "''file''", OF _ example_construct_export_path]
  by (simp add: root_marker_def Path_of_def div_str_def parts_of_def joinpath_def)

text \<open>
  The claim C4 as the specification states it, with the LAST occurrence of the marker,
  fails on a source path that has the marker twice: the code appends everything
  after the first \<open>processed\<close>.
\<close>

theorem get_export_path_last_marker_counterexample:
  "get_export_path example_config ''ChicagoA-XX1-followupInterview''
     ([''/'', ''data'', ''processed'', ''run1'', ''processed'', ''stream_1.mp4''],
      ''file'', ''PROTECTED'', ''streams'') \<noteq>
   Inr (joinpath [''/'', ''export_root'', ''PROTECTED'', ''ChicagoA'', ''processed'', ''XX1'',
                  ''interviews'', ''followup'']
          (Path_of (spec_after_last_marker
             [''/'', ''data'', ''processed'', ''run1'', ''processed'', ''stream_1.mp4''])))"
  by (simp add: get_export_path_def example_construct_export_path spec_after_last_marker_def
      root_marker_def Path_of_def div_str_def parts_of_def joinpath_def)

text \<open>
  C5. For an asset of the flattened family (tag \<open>face_processing_pipeline\<close>) the
  destination is the base export path joined with the name of the source path; the
  base is the export root followed by the access tier, the study, \<open>processed\<close>,
  the subject, \<open>interviews\<close> and the first token of the camel-case split of the
  data type. For the interview \<open>ChicagoA-XX1-followupInterview\<close> and a PROTECTED
  asset at \<open>/proc/feature_output/subjXX1_face\<close> the destination is
  \<open>export_root/PROTECTED/ChicagoA/processed/XX1/interviews/followup/subjXX1_face\<close>.
\<close>

theorem get_export_path_flattened:
  assumes "atag = ''face_processing_pipeline''"
  shows "get_export_path cfg iname (apath, atype, aexp, atag) =
           (case construct_export_path cfg iname aexp of
              Inl e \<Rightarrow> Inl e
            | Inr base \<Rightarrow> Inr (div_str base (path_name apath)))
         \<and> (parse_dpdash_name cfg iname = Inr d \<longrightarrow>
              camel_case_split cfg (data_type d) = t # ts \<longrightarrow>
              clean_segment aexp \<and> clean_segment (study d) \<and> clean_segment (subject d)
                \<and> clean_segment t \<and> clean_segment (path_name apath) \<longrightarrow>
              get_export_path cfg iname (apath, atype, aexp, atag) =
                Inr (get_data_root cfg
                       @ [aexp, study d, ''processed'', subject d, ''interviews'', t]
                       @ [path_name apath]))
         \<and> (parse_dpdash_name cfg ''ChicagoA-XX1-followupInterview'' =
                Inr \<lparr>study = ''ChicagoA'', subject = ''XX1'', data_type = ''followupInterview''\<rparr>
              \<longrightarrow> camel_case_split cfg ''followupInterview'' = ''followup'' # tokens \<longrightarrow>
              get_export_path cfg ''ChicagoA-XX1-followupInterview''
                (parts_of ''/proc/feature_output/subjXX1_face'', atype, ''PROTECTED'', atag) =
              Inr (get_data_root cfg
                     @ [''PROTECTED'', ''ChicagoA'', ''processed'', ''XX1'', ''interviews'',
                        ''followup'', ''subjXX1_face'']))"
proof (intro conjI impI)
  show "get_export_path cfg iname (apath, atype, aexp, atag) =
          (case construct_export_path cfg iname aexp of
             Inl e \<Rightarrow> Inl e
           | Inr base \<Rightarrow> Inr (div_str base (path_name apath)))"
    using assms by (simp add: get_export_path_def split: sum.splits)
next
  assume "parse_dpdash_name cfg iname = Inr d" "camel_case_split cfg (data_type d) = t # ts"
    "clean_segment aexp \<and> clean_segment (study d) \<and> clean_segment (subject d)
       \<and> clean_segment t \<and> clean_segment (path_name apath)"
  then show "get_export_path cfg iname (apath, atype, aexp, atag) =
          Inr (get_data_root cfg
                 @ [aexp, study d, ''processed'', subject d, ''interviews'', t]
                 @ [path_name apath])"
    using assms
    by (simp add: get_export_path_def construct_export_path_def div_str_clean
        clean_segment_def [of "''processed''"] clean_segment_def [of "''interviews''"])
next
  assume "parse_dpdash_name cfg ''ChicagoA-XX1-followupInterview'' =
            Inr \<lparr>study = ''ChicagoA'', subject = ''XX1'', data_type = ''followupInterview''\<rparr>"
    "camel_case_split cfg ''followupInterview'' = ''followup'' # tokens"
  then show "get_export_path cfg ''ChicagoA-XX1-followupInterview''
          (parts_of ''/proc/feature_output/subjXX1_face'', atype, ''PROTECTED'', atag) =
        Inr (get_data_root cfg
               @ [''PROTECTED'', ''ChicagoA'', ''processed'', ''XX1'', ''interviews'',
                  ''followup'', ''subjXX1_face''])"
    using assms
    by (simp add: get_export_path_def construct_export_path_def
        div_str_def parts_of_def joinpath_def path_name_def)
qed

theorem get_export_path_flattened_witness:
  "get_export_path example_config ''ChicagoA-XX1-followupInterview''
     ([''/'', ''proc'', ''feature_output'', ''subjXX1_face''], ''directory'', ''PROTECTED'',
      ''face_processing_pipeline'') =
   Inr [''/'', ''export_root'', ''PROTECTED'', ''ChicagoA'', ''processed'', ''XX1'',
        ''interviews'', ''followup'', ''subjXX1_face'']"
  using get_export_path_flattened
    [of "''face_processing_pipeline''" example_config "''ChicagoA-XX1-followupInterview''"
      "[''/'', ''proc'', ''feature_output'', ''subjXX1_face'']" "''directory''"
      "''PROTECTED''"
      "\<lparr>study = ''ChicagoA'', subject = ''XX1'', data_type = ''followupInterview''\<rparr>"
      "''followup''" "[''Interview'']" "[''Interview'']"]
  by (simp add: example_config_def spec_parse_dpdash_name_def is_upper_def clean_segment_def
      path_name_def construct_export_path_def div_str_def parts_of_def joinpath_def)

text \<open>
  C10. Resolution for an asset outside the flattened family is partial. When the
  source path has no \<open>processed\<close> component, \<open>get_export_path\<close> raises: the
  ValueError of \<open>index\<close> whenever the base export path was constructed, whether or
  not \<open>decrypted\<close> is in the path, and the exception leaves the copy loop and the
  transfer uncaught. When the path has a \<open>processed\<close> component and the base
  was constructed, resolution returns a path.
\<close>

theorem get_export_path_partial:
  assumes "atag \<noteq> ''face_processing_pipeline''"
  shows "(''processed'' \<notin> set apath \<longrightarrow>
            get_export_path cfg iname (apath, atype, aexp, atag) =
              (case construct_export_path cfg iname aexp of
                 Inl e \<Rightarrow> Inl e
               | Inr base \<Rightarrow> Inl ValueError)
            \<and> (construct_export_path cfg iname aexp = Inr base \<longrightarrow>
                 transfer cfg debug iname ((apath, atype, aexp, atag) # rest) w =
                   Inl (ValueError, w)))
         \<and> (''processed'' \<in> set apath \<longrightarrow>
              construct_export_path cfg iname aexp = Inr base \<longrightarrow>
              (\<exists>destination. get_export_path cfg iname (apath, atype, aexp, atag) =
                 Inr destination))"
proof (intro conjI impI)
  assume absent: "''processed'' \<notin> set apath"
  show "get_export_path cfg iname (apath, atype, aexp, atag) =
          (case construct_export_path cfg iname aexp of
             Inl e \<Rightarrow> Inl e
           | Inr base \<Rightarrow> Inl ValueError)"
    using assms absent by (simp add: get_export_path_def list_index_absent split: sum.splits)
  assume "construct_export_path cfg iname aexp = Inr base"
  then have "get_export_path cfg iname (apath, atype, aexp, atag) = Inl ValueError"
    using assms absent by (simp add: get_export_path_def list_index_absent)
  then show "transfer cfg debug iname ((apath, atype, aexp, atag) # rest) w =
               Inl (ValueError, w)"
    by (simp add: transfer_def copy_asset_def)
next
  assume "''processed'' \<in> set apath" "construct_export_path cfg iname aexp = Inr base"
  then show "\<exists>destination. get_export_path cfg iname (apath, atype, aexp, atag) =
               Inr destination"
    using assms by (simp add: get_export_path_def list_index_present)
qed

theorem get_export_path_partial_witness:
  "get_export_path example_config ''ChicagoA-XX1-followupInterview''
     ([''/'', ''data'', ''decrypted'', ''ChicagoA'', ''XX1'', ''video'', ''stream_1.mp4''],
      ''file'', ''PROTECTED'', ''streams'') = Inl ValueError
   \<and> (\<exists>destination.
        get_export_path example_config ''ChicagoA-XX1-followupInterview''
          ([''/'', ''data'', ''processed'', ''ChicagoA'', ''XX1'', ''video'', ''stream_1.mp4''],
           ''file'', ''PROTECTED'', ''streams'') = Inr destination)"
  using get_export_path_partial
    [of "''streams''"
      "[''/'', ''data'', ''decrypted'', ''ChicagoA'', ''XX1'', ''video'', ''stream_1.mp4'']"
      example_config "''ChicagoA-XX1-followupInterview''" "''file''" "''PROTECTED''"]
    get_export_path_partial
    [of "''streams''"
      "[''/'', ''data'', ''processed'', ''ChicagoA'', ''XX1'', ''video'', ''stream_1.mp4'']"
      example_config "''ChicagoA-XX1-followupInterview''" "''file''" "''PROTECTED''"]
  by (simp add: example_construct_export_path)

section \<open>Transfer: what each operation changes\<close>

lemma mkdir_parents_Inr:
  "mkdir_parents p w = Inr w' \<Longrightarrow>
     upstream w' = upstream w \<and> exported_assets w' = exported_assets w \<and> effects w' = effects w
     \<and> (\<forall>q. fs w q \<noteq> None \<longrightarrow> fs w' q = fs w q)
     \<and> (\<forall>q. \<not> prefix q p \<longrightarrow> fs w' q = fs w q)"
  by (auto simp: mkdir_parents_def upstream_def split: if_splits)

lemma copy2_Inr:
  "copy2 s d w = Inr w' \<Longrightarrow>
     upstream w' = upstream w \<and> exported_assets w' = exported_assets w
     \<and> (\<exists>t. effects w' = effects w @ [Copied s t] \<and> prefix d t
          \<and> (\<forall>q. q \<noteq> t \<longrightarrow> fs w' q = fs w q) \<and> fs w' t \<noteq> None)"
  by (auto simp: copy2_def upstream_def emit_def Let_def split: if_splits option.splits node.splits)

lemma copytree_Inr:
  "copytree s d w = Inr w' \<Longrightarrow>
     upstream w' = upstream w \<and> exported_assets w' = exported_assets w
     \<and> effects w' = effects w @ [Copied s d]
     \<and> (\<forall>q. fs w q \<noteq> None \<longrightarrow> fs w' q \<noteq> None)
     \<and> (\<forall>q. \<not> prefix d q \<longrightarrow> \<not> prefix q d \<longrightarrow> fs w' q = fs w q)"
  by (auto simp: copytree_def upstream_def emit_def path_exists_def is_dir_def
      split: if_splits option.splits)

lemma prefix_path_parent: "prefix q (path_parent d) \<Longrightarrow> prefix q d"
  by (auto simp: path_parent_def split: if_splits intro: prefix_order.trans prefixeq_butlast)

lemma copy_asset_Inl:
  assumes "copy_asset cfg debug iname a w = Inl (e, w')"
  shows "upstream w' = upstream w \<and> exported_assets w' = exported_assets w
     \<and> effects w' = effects w \<and> (\<forall>q. fs w q \<noteq> None \<longrightarrow> fs w' q = fs w q)"
  using assms
  by (auto simp: copy_asset_def Let_def split: prod.splits sum.splits if_splits
      dest!: mkdir_parents_Inr)

lemma copy_asset_Inr:
  assumes "copy_asset cfg debug iname a w = Inr (qry, w')"
  shows "upstream w' = upstream w \<and> exported_assets w' = exported_assets w
     \<and> (\<forall>q. fs w q \<noteq> None \<longrightarrow> fs w' q \<noteq> None)
     \<and> (\<exists>d. get_export_path cfg iname a = Inr d
            \<and> qry = to_sql \<lparr>ea_interview_name = iname, ea_asset_path = fst a,
                   ea_asset_type = fst (snd a), ea_asset_export_type = fst (snd (snd a)),
                   ea_asset_tag = snd (snd (snd a)), ea_asset_destination = d\<rparr>
            \<and> (\<forall>q. \<not> prefix q d \<longrightarrow> \<not> prefix d q \<longrightarrow> fs w' q = fs w q))
     \<and> (debug \<longrightarrow> w' = w)
     \<and> (\<not> debug \<longrightarrow> (\<exists>t. effects w' = effects w @ [Copied (fst a) t]))"
proof -
  obtain apath atype aexp atag where a: "a = (apath, atype, aexp, atag)"
    by (cases a) auto
  from assms obtain d where d: "get_export_path cfg iname a = Inr d"
    by (auto simp: copy_asset_def a split: sum.splits)
  show ?thesis
  proof (cases debug)
    case True
    with assms d show ?thesis
      by (auto simp: copy_asset_def a Let_def split: if_splits)
  next
    case False
    consider (isfile) "atype = ''file''" | (isdir) "atype \<noteq> ''file''" "atype = ''directory''"
      | (other) "atype \<noteq> ''file''" "atype \<noteq> ''directory''" by blast
    then show ?thesis
    proof cases
      case isfile
      from assms d False isfile obtain w1 where
        w1: "(if \<not> path_exists w (path_parent d) then mkdir_parents (path_parent d) w else Inr w) = Inr w1"
        and c: "copy2 apath d w1 = Inr w'" and q: "qry = to_sql \<lparr>ea_interview_name = iname, ea_asset_path = apath,
                   ea_asset_type = atype, ea_asset_export_type = aexp,
                   ea_asset_tag = atag, ea_asset_destination = d\<rparr>"
        by (auto simp: copy_asset_def a Let_def split: sum.splits if_splits)
      have m: "upstream w1 = upstream w \<and> exported_assets w1 = exported_assets w \<and> effects w1 = effects w
     \<and> (\<forall>q. fs w q \<noteq> None \<longrightarrow> fs w1 q = fs w q)
     \<and> (\<forall>q. \<not> prefix q (path_parent d) \<longrightarrow> fs w1 q = fs w q)"
        using w1 mkdir_parents_Inr [of "path_parent d" w w1] by (auto split: if_splits)
      from copy2_Inr [OF c] obtain t where t: "upstream w' = upstream w1" "exported_assets w' = exported_assets w1"
        "effects w' = effects w1 @ [Copied apath t]" "prefix d t"
          "\<forall>q. q \<noteq> t \<longrightarrow> fs w' q = fs w1 q" "fs w' t \<noteq> None" by blast
      have mono: "\<forall>q. fs w q \<noteq> None \<longrightarrow> fs w' q \<noteq> None"
        using m t by metis
      have frame: "\<forall>q. \<not> prefix q d \<longrightarrow> \<not> prefix d q \<longrightarrow> fs w' q = fs w q"
      proof (intro allI impI)
        fix q assume n: "\<not> prefix q d" "\<not> prefix d q"
        then have "q \<noteq> t" using t(4) by auto
        moreover have "\<not> prefix q (path_parent d)" using n prefix_path_parent by blast
        ultimately show "fs w' q = fs w q" using m t by simp
      qed
      show ?thesis using m t(1,2,3) mono frame d q False by (auto simp: a)
    next
      case isdir
      from assms d False isdir have c: "copytree apath d w = Inr w'" and q: "qry = to_sql \<lparr>ea_interview_name = iname, ea_asset_path = apath,
                   ea_asset_type = atype, ea_asset_export_type = aexp,
                   ea_asset_tag = atag, ea_asset_destination = d\<rparr>"
        by (auto simp: copy_asset_def a Let_def split: sum.splits if_splits)
      from copytree_Inr [OF c] show ?thesis using d q False by (auto simp: a)
    next
      case other
      with assms show ?thesis by (auto simp: copy_asset_def a Let_def split: sum.splits)
    qed
  qed
qed


lemma copy_assets_append:
  "copy_assets cfg debug iname (pre @ rest) qs w =
     (case copy_assets cfg debug iname pre qs w of
        Inl ew \<Rightarrow> Inl ew
      | Inr (qs1, w1) \<Rightarrow> copy_assets cfg debug iname rest qs1 w1)"
  by (induction pre arbitrary: qs w) (auto split: sum.splits)

lemma copy_assets_Inl:
  "copy_assets cfg debug iname xs qs w = Inl (e, w') \<Longrightarrow>
     upstream w' = upstream w \<and> exported_assets w' = exported_assets w
     \<and> (\<forall>q. fs w q \<noteq> None \<longrightarrow> fs w' q \<noteq> None)"
proof (induction xs arbitrary: qs w)
  case Nil
  then show ?case by simp
next
  case (Cons a xs)
  show ?case
  proof (cases "copy_asset cfg debug iname a w")
    case (Inl ew)
    with Cons.prems have "copy_asset cfg debug iname a w = Inl (e, w')" by simp
    from copy_asset_Inl [OF this] show ?thesis by auto
  next
    case (Inr qw)
    obtain qry w1 where qw: "qw = (qry, w1)" by (cases qw) auto
    with Inr Cons.prems have rest: "copy_assets cfg debug iname xs (qs @ [qry]) w1 = Inl (e, w')"
      by simp
    from Inr qw have step: "copy_asset cfg debug iname a w = Inr (qry, w1)" by simp
    from Cons.IH [OF rest] copy_asset_Inr [OF step] show ?thesis by auto
  qed
qed

lemma copy_assets_Inl_effects:
  "copy_assets cfg False iname xs qs w = Inl (e, w') \<Longrightarrow>
     \<exists>ts. length ts < length xs
        \<and> effects w' = effects w @ map (\<lambda>(s, t). Copied s t) (zip (map fst xs) ts)"
proof (induction xs arbitrary: qs w)
  case Nil
  then show ?case by simp
next
  case (Cons a xs)
  show ?case
  proof (cases "copy_asset cfg False iname a w")
    case (Inl ew)
    with Cons.prems have "copy_asset cfg False iname a w = Inl (e, w')" by simp
    from copy_asset_Inl [OF this] show ?thesis
      by (auto intro!: exI [of _ "[]"])
  next
    case (Inr qw)
    obtain qry w1 where qw: "qw = (qry, w1)" by (cases qw) auto
    with Inr Cons.prems have rest: "copy_assets cfg False iname xs (qs @ [qry]) w1 = Inl (e, w')"
      by simp
    from Cons.IH [OF rest] obtain ts where ih: "length ts < length xs"
      "effects w' = effects w1 @ map (\<lambda>(s, t). Copied s t) (zip (map fst xs) ts)"
      by blast
    from Inr qw have step: "copy_asset cfg False iname a w = Inr (qry, w1)" by simp
    from copy_asset_Inr [OF step] obtain t where t: "effects w1 = effects w @ [Copied (fst a) t]"
      by blast
    have "effects w' = effects w @ map (\<lambda>(s, t). Copied s t) (zip (map fst (a # xs)) (t # ts))"
      using ih(2) t by simp
    moreover have "length (t # ts) < length (a # xs)" using ih(1) by simp
    ultimately show ?thesis by blast
  qed
qed

lemma copy_assets_Inr:
  "copy_assets cfg debug iname xs qs w = Inr (qs', w') \<Longrightarrow>
     upstream w' = upstream w \<and> exported_assets w' = exported_assets w
     \<and> (\<forall>q. fs w q \<noteq> None \<longrightarrow> fs w' q \<noteq> None)
     \<and> (\<forall>q. (\<forall>a\<in>set xs. \<forall>d. get_export_path cfg iname a = Inr d \<longrightarrow>
                 \<not> prefix q d \<and> \<not> prefix d q) \<longrightarrow> fs w' q = fs w q)
     \<and> (\<exists>new. qs' = qs @ new \<and> map (\<lambda>q. ea_asset_path (inserted_row q)) new = map fst xs
            \<and> (\<forall>q\<in>set new. ea_interview_name (inserted_row q) = iname))"
proof (induction xs arbitrary: qs w)
  case Nil
  then show ?case by simp
next
  case (Cons a xs)
  from Cons.prems obtain qry w1 where step: "copy_asset cfg debug iname a w = Inr (qry, w1)"
    and rest: "copy_assets cfg debug iname xs (qs @ [qry]) w1 = Inr (qs', w')"
    by (auto split: sum.splits)
  from Cons.IH [OF rest] obtain new where ih:
    "upstream w' = upstream w1" "exported_assets w' = exported_assets w1"
    "\<forall>q. fs w1 q \<noteq> None \<longrightarrow> fs w' q \<noteq> None"
    "\<forall>q. (\<forall>a\<in>set xs. \<forall>d. get_export_path cfg iname a = Inr d \<longrightarrow>
                 \<not> prefix q d \<and> \<not> prefix d q) \<longrightarrow> fs w' q = fs w1 q"
    "qs' = (qs @ [qry]) @ new" "map (\<lambda>q. ea_asset_path (inserted_row q)) new = map fst xs"
    "\<forall>q\<in>set new. ea_interview_name (inserted_row q) = iname"
    by blast
  from copy_asset_Inr [OF step] obtain d where st:
    "upstream w1 = upstream w" "exported_assets w1 = exported_assets w"
    "\<forall>q. fs w q \<noteq> None \<longrightarrow> fs w1 q \<noteq> None"
    "get_export_path cfg iname a = Inr d"
    "qry = to_sql \<lparr>ea_interview_name = iname, ea_asset_path = fst a,
                   ea_asset_type = fst (snd a), ea_asset_export_type = fst (snd (snd a)),
                   ea_asset_tag = snd (snd (snd a)), ea_asset_destination = d\<rparr>"
    "\<forall>q. \<not> prefix q d \<longrightarrow> \<not> prefix d q \<longrightarrow> fs w1 q = fs w q"
    by blast
  have frame: "\<forall>q. (\<forall>a\<in>set (a # xs). \<forall>d. get_export_path cfg iname a = Inr d \<longrightarrow>
                 \<not> prefix q d \<and> \<not> prefix d q) \<longrightarrow> fs w' q = fs w q"
    using ih(4) st(4,6) by simp
  have q: "qs' = qs @ (qry # new) \<and> map (\<lambda>q. ea_asset_path (inserted_row q)) (qry # new) = map fst (a # xs)
            \<and> (\<forall>q\<in>set (qry # new). ea_interview_name (inserted_row q) = iname)"
    using ih(5,6,7) st(5) by (simp add: to_sql_def)
  show ?case using ih(1,2,3) st(1,2,3) frame q by (metis (no_types, lifting))
qed

lemma copy_assets_Inr_effects:
  "copy_assets cfg False iname xs qs w = Inr (qs', w') \<Longrightarrow>
     \<exists>ts. length ts = length xs
        \<and> effects w' = effects w @ map (\<lambda>(s, t). Copied s t) (zip (map fst xs) ts)"
proof (induction xs arbitrary: qs w)
  case Nil
  then show ?case by simp
next
  case (Cons a xs)
  from Cons.prems obtain qry w1 where step: "copy_asset cfg False iname a w = Inr (qry, w1)"
    and rest: "copy_assets cfg False iname xs (qs @ [qry]) w1 = Inr (qs', w')"
    by (auto split: sum.splits)
  from Cons.IH [OF rest] obtain ts where ih: "length ts = length xs"
      "effects w' = effects w1 @ map (\<lambda>(s, t). Copied s t) (zip (map fst xs) ts)"
    by blast
  from copy_asset_Inr [OF step] obtain t where t: "effects w1 = effects w @ [Copied (fst a) t]"
    by blast
  have "effects w' = effects w @ map (\<lambda>(s, t). Copied s t) (zip (map fst (a # xs)) (t # ts))"
    using ih(2) t by simp
  moreover have "length (t # ts) = length (a # xs)" using ih(1) by simp
  ultimately show ?case by blast
qed

lemma copy_assets_debug:
  "copy_assets cfg True iname xs qs w = r \<Longrightarrow>
     (case r of Inl (e, w') \<Rightarrow> w' = w | Inr (qs', w') \<Rightarrow> w' = w)"
proof (induction xs arbitrary: qs w)
  case Nil
  then show ?case by auto
next
  case (Cons a xs)
  show ?case
  proof (cases "copy_asset cfg True iname a w")
    case (Inl ew)
    then show ?thesis using Cons.prems
      by (auto simp: copy_asset_def Let_def split: prod.splits sum.splits if_splits)
  next
    case (Inr qw)
    obtain qry w1 where qw: "qw = (qry, w1)" by (cases qw) auto
    with Inr copy_asset_Inr [of cfg True iname a w qry w1] have "w1 = w" by simp
    with Inr qw Cons.prems Cons.IH [of "qs @ [qry]" w] show ?thesis by simp
  qed
qed

lemma execute_queries_Inr:
  "execute_queries qs w = Inr w' \<Longrightarrow>
     upstream w' = upstream w \<and> fs w' = fs w
     \<and> exported_assets w' = exported_assets w @ map inserted_row qs
     \<and> effects w' = effects w @ [Ledger_write (map inserted_row qs)]"
  by (auto simp: execute_queries_def upstream_def emit_def split: if_splits)

lemma unlink_Inr:
  "unlink p w = Inr w' \<Longrightarrow>
     upstream w' = upstream w \<and> exported_assets w' = exported_assets w
     \<and> effects w' = effects w @ [Deleted p] \<and> fs w' = (fs w)(p := None)"
  by (auto simp: unlink_def upstream_def emit_def split: if_splits)

lemma rmtree_Inr:
  "rmtree p w = Inr w' \<Longrightarrow>
     upstream w' = upstream w \<and> exported_assets w' = exported_assets w
     \<and> effects w' = effects w @ [Deleted p]
     \<and> fs w' = (\<lambda>q. if prefix p q then None else fs w q)"
  by (auto simp: rmtree_def upstream_def emit_def split: if_splits)

lemma clean_up_final:
  "w' = final_world (clean_up xs w) \<Longrightarrow>
     upstream w' = upstream w \<and> exported_assets w' = exported_assets w
     \<and> (\<exists>ds. effects w' = effects w @ map Deleted ds)
     \<and> (\<forall>q. fs w q = None \<longrightarrow> fs w' q = None)
     \<and> (\<forall>q. (\<forall>a\<in>set xs. snd (snd (snd a)) \<noteq> ''frames'' \<longrightarrow> \<not> prefix (fst a) q)
            \<longrightarrow> fs w' q = fs w q)"
proof (induction xs w arbitrary: w' rule: clean_up.induct)
  case (1 w)
  then show ?case by simp
next
  case (2 apath atype aexport_type atag rest w)
  show ?case
  proof (cases "atag = ''frames''")
    case True
    with 2 show ?thesis by simp
  next
    case nf: False
    show ?thesis
    proof (cases "is_file w apath")
      case True
      show ?thesis
      proof (cases "unlink apath w")
        case (Inl e)
        with nf True 2(5) show ?thesis by (auto intro: exI [of _ "[]"])
      next
        case (Inr w1)
        with nf True 2(5) have "w' = final_world (clean_up rest w1)" by simp
        from 2(2) [OF nf True Inr this] obtain ds where ih:
          "upstream w' = upstream w1" "exported_assets w' = exported_assets w1"
          "effects w' = effects w1 @ map Deleted ds"
          "\<forall>q. fs w1 q = None \<longrightarrow> fs w' q = None"
          "\<forall>q. (\<forall>a\<in>set rest. snd (snd (snd a)) \<noteq> ''frames'' \<longrightarrow> \<not> prefix (fst a) q)
                \<longrightarrow> fs w' q = fs w1 q"
          by blast
        note u = unlink_Inr [OF Inr]
        have "effects w' = effects w @ map Deleted (apath # ds)" using ih(3) u by simp
        then have "\<exists>ds. effects w' = effects w @ map Deleted ds" by blast
        moreover have "\<forall>q. fs w q = None \<longrightarrow> fs w' q = None" using ih(4) u by simp
        moreover have "\<forall>q. (\<forall>a\<in>set ((apath, atype, aexport_type, atag) # rest).
              snd (snd (snd a)) \<noteq> ''frames'' \<longrightarrow> \<not> prefix (fst a) q) \<longrightarrow> fs w' q = fs w q"
          using ih(5) u nf by auto
        ultimately show ?thesis using ih(1,2) u by simp
      qed
    next
      case nfile: False
      show ?thesis
      proof (cases "is_dir w apath")
        case True
        show ?thesis
        proof (cases "rmtree apath w")
          case (Inl e)
          with nf nfile True 2(5) show ?thesis by (auto intro: exI [of _ "[]"])
        next
          case (Inr w1)
          with nf nfile True 2(5) have "w' = final_world (clean_up rest w1)" by simp
          from 2(3) [OF nf nfile True Inr this] obtain ds where ih:
            "upstream w' = upstream w1" "exported_assets w' = exported_assets w1"
            "effects w' = effects w1 @ map Deleted ds"
            "\<forall>q. fs w1 q = None \<longrightarrow> fs w' q = None"
            "\<forall>q. (\<forall>a\<in>set rest. snd (snd (snd a)) \<noteq> ''frames'' \<longrightarrow> \<not> prefix (fst a) q)
                  \<longrightarrow> fs w' q = fs w1 q"
            by blast
          note u = rmtree_Inr [OF Inr]
          have "effects w' = effects w @ map Deleted (apath # ds)" using ih(3) u by simp
          then have "\<exists>ds. effects w' = effects w @ map Deleted ds" by blast
          moreover have "\<forall>q. fs w q = None \<longrightarrow> fs w' q = None" using ih(4) u by simp
          moreover have "\<forall>q. (\<forall>a\<in>set ((apath, atype, aexport_type, atag) # rest).
                snd (snd (snd a)) \<noteq> ''frames'' \<longrightarrow> \<not> prefix (fst a) q) \<longrightarrow> fs w' q = fs w q"
            using ih(5) u nf by auto
          ultimately show ?thesis using ih(1,2) u by simp
        qed
      next
        case False
        with nf nfile 2(5) have "w' = final_world (clean_up rest w)" by simp
        from 2(4) [OF nf nfile False this] show ?thesis by auto
      qed
    qed
  qed
qed

lemma clean_up_Inr:
  "clean_up xs w = Inr w' \<Longrightarrow>
     \<forall>a\<in>set xs. snd (snd (snd a)) \<noteq> ''frames'' \<longrightarrow> fs w' (fst a) = None"
proof (induction xs w rule: clean_up.induct)
  case (1 w)
  then show ?case by simp
next
  case (2 apath atype aexport_type atag rest w)
  show ?case
  proof (cases "atag = ''frames''")
    case True
    with 2 show ?thesis by simp
  next
    case nf: False
    show ?thesis
    proof (cases "is_file w apath")
      case True
      with nf 2(5) obtain w1 where u: "unlink apath w = Inr w1" and r: "clean_up rest w1 = Inr w'"
        by (auto split: sum.splits)
      from unlink_Inr [OF u] have "fs w1 apath = None" by simp
      with clean_up_final [of w' rest w1] r have "fs w' apath = None" by simp
      with 2(2) [OF nf True u r] show ?thesis by simp
    next
      case nfile: False
      show ?thesis
      proof (cases "is_dir w apath")
        case True
        with nf nfile 2(5) obtain w1 where u: "rmtree apath w = Inr w1" and r: "clean_up rest w1 = Inr w'"
          by (auto split: sum.splits)
        from rmtree_Inr [OF u] have "fs w1 apath = None" by simp
        with clean_up_final [of w' rest w1] r have "fs w' apath = None" by simp
        with 2(3) [OF nf nfile True u r] show ?thesis by simp
      next
        case False
        with nf nfile 2(5) have r: "clean_up rest w = Inr w'" by simp
        from nfile False have "fs w apath = None"
          by (auto simp: is_file_def is_dir_def split: option.splits node.splits)
        with clean_up_final [of w' rest w] r have "fs w' apath = None" by simp
        with 2(4) [OF nf nfile False r] show ?thesis by simp
      qed
    qed
  qed
qed

section \<open>Transfer: order, failure and clean-up\<close>

lemma final_world_Inr: "\<not> isl r \<Longrightarrow> r = Inr (final_world r)"
  by (cases r) auto

lemma final_world_Inl: "isl r \<Longrightarrow> r = Inl (fst (projl r), final_world r)"
  by (cases r) auto

lemma ordered_trace_partial:
  "length ts < length srcs \<Longrightarrow>
     ordered_trace all srcs (map (\<lambda>(s, t). Copied s t) (zip srcs ts))"
  by (induction srcs ts rule: list_induct2') auto

lemma ordered_trace_complete:
  "length ts = length srcs \<Longrightarrow>
     ordered_trace all srcs (map (\<lambda>(s, t). Copied s t) (zip srcs ts) @ es)
       = ordered_trace all [] es"
  by (induction srcs ts rule: list_induct2') auto

lemma ledger_rows_copies: "ledger_rows (map (\<lambda>(s, t). Copied s t) cs) = []"
  by (induction cs) auto

lemma ledger_rows_deletions: "ledger_rows (map Deleted ds) = []"
  by (induction ds) auto

lemma ledger_rows_append: "ledger_rows (xs @ ys) = ledger_rows xs @ ledger_rows ys"
  by (induction xs rule: ledger_rows.induct) auto

lemma list_all_deletions: "list_all is_deletion (map Deleted ds)"
  by (induction ds) auto

lemma transfer_trace:
  "\<exists>new. effects (final_world (transfer cfg False iname exports w)) = effects w @ new
      \<and> ordered_trace (map fst exports) (map fst exports) new
      \<and> exported_assets (final_world (transfer cfg False iname exports w)) =
          exported_assets w @ ledger_rows new
      \<and> (\<not> isl (transfer cfg False iname exports w) \<longrightarrow>
           (\<exists>targets rows deleted. length targets = length exports
              \<and> new = map (\<lambda>(s, t). Copied s t) (zip (map fst exports) targets)
                        @ Ledger_write rows # map Deleted deleted))"
proof (cases "copy_assets cfg False iname exports [] w")
  case (Inl ew)
  obtain e w1 where ew: "ew = (e, w1)" by (cases ew) auto
  with Inl have c: "copy_assets cfg False iname exports [] w = Inl (e, w1)" by simp
  then have t: "transfer cfg False iname exports w = Inl (e, w1)" by (simp add: transfer_def)
  from copy_assets_Inl_effects [OF c] obtain ts where ts: "length ts < length exports"
    "effects w1 = effects w @ map (\<lambda>(s, t). Copied s t) (zip (map fst exports) ts)" by blast
  from copy_assets_Inl [OF c] have l: "exported_assets w1 = exported_assets w" by simp
  show ?thesis
    apply (rule exI [of _ "map (\<lambda>(s, t). Copied s t) (zip (map fst exports) ts)"])
    using ts l by (simp add: t ordered_trace_partial ledger_rows_copies)
next
  case (Inr qw)
  obtain qs w1 where qw: "qw = (qs, w1)" by (cases qw) auto
  with Inr have c: "copy_assets cfg False iname exports [] w = Inr (qs, w1)" by simp
  from copy_assets_Inr_effects [OF c] obtain ts where ts: "length ts = length exports"
    "effects w1 = effects w @ map (\<lambda>(s, t). Copied s t) (zip (map fst exports) ts)" by blast
  from copy_assets_Inr [OF c] have l: "exported_assets w1 = exported_assets w"
    and q: "map (\<lambda>q. ea_asset_path (inserted_row q)) qs = map fst exports" by auto
  show ?thesis
  proof (cases "execute_queries qs w1")
    case (Inl e)
    with c have t: "transfer cfg False iname exports w = Inl (e, w1)" by (simp add: transfer_def)
    show ?thesis
      apply (rule exI [of _ "map (\<lambda>(s, t). Copied s t) (zip (map fst exports) ts)"])
      using ts l ordered_trace_complete [of ts "map fst exports" "map fst exports" "[]"]
      by (simp add: t ledger_rows_copies)
  next
    case (Inr w2)
    with c have t: "transfer cfg False iname exports w = clean_up exports w2"
      by (simp add: transfer_def)
    note x = execute_queries_Inr [OF Inr]
    from clean_up_final [OF refl, of exports w2] obtain ds where ds:
      "exported_assets (final_world (clean_up exports w2)) = exported_assets w2"
      "effects (final_world (clean_up exports w2)) = effects w2 @ map Deleted ds" by blast
    let ?new = "map (\<lambda>(s, t). Copied s t) (zip (map fst exports) ts)
                  @ Ledger_write (map inserted_row qs) # map Deleted ds"
    have 1: "effects (final_world (transfer cfg False iname exports w)) = effects w @ ?new"
      using t ds x ts by simp
    have 2: "ordered_trace (map fst exports) (map fst exports) ?new"
      using ordered_trace_complete [of ts "map fst exports"] ts(1) q
      by (simp add: list_all_deletions comp_def)
    have 3: "exported_assets (final_world (transfer cfg False iname exports w)) =
          exported_assets w @ ledger_rows ?new"
      using t ds x l by (simp add: ledger_rows_append ledger_rows_copies ledger_rows_deletions)
    show ?thesis
      apply (rule exI [of _ ?new])
      using 1 2 3 ts(1) by blast
  qed
qed

text \<open>
  C3. The effects of the transfer of one interview, not in debug mode, come in this
  order, however the transfer ends: the copies of the sources in their order; then,
  only when every source has been copied, one batch write with one row for each
  source; then nothing but deletions. The ledger after the run is the ledger before
  followed by the rows of that single write: all of them or none. A transfer that
  ends without an exception has made all the copies, then the write, then the
  deletions.
\<close>

theorem transfer_order:
  "\<exists>new. effects (final_world (transfer cfg False iname exports w)) = effects w @ new
      \<and> ordered_trace (map fst exports) (map fst exports) new
      \<and> exported_assets (final_world (transfer cfg False iname exports w)) =
          exported_assets w @ ledger_rows new
      \<and> (\<not> isl (transfer cfg False iname exports w) \<longrightarrow>
           (\<exists>targets rows deleted. length targets = length exports
              \<and> new = map (\<lambda>(s, t). Copied s t) (zip (map fst exports) targets)
                        @ Ledger_write rows # map Deleted deleted))"
  by (rule transfer_trace)

text \<open>
  C2. When the copy of an asset fails after the assets before it have been copied,
  the transfer of the interview ends with that exception: the ledger is what it was
  before the transfer, so no row is written for the interview, and every path that
  existed before the transfer still exists, in particular the sources of the assets
  already copied; the only effects are the copies made before the failure.
\<close>

theorem transfer_failure_atomic:
  assumes "copy_assets cfg debug iname pre [] w = Inr (qs, w1)"
    and "copy_asset cfg debug iname a w1 = Inl (e, w')"
  shows "transfer cfg debug iname (pre @ a # post) w = Inl (e, w')
     \<and> exported_assets w' = exported_assets w
     \<and> (\<forall>x\<in>set (pre @ a # post). path_exists w (fst x) \<longrightarrow> path_exists w' (fst x))
     \<and> (\<forall>q. path_exists w q \<longrightarrow> path_exists w' q)
     \<and> (\<not> debug \<longrightarrow> (\<exists>targets. length targets = length pre
            \<and> effects w' = effects w @ map (\<lambda>(s, t). Copied s t) (zip (map fst pre) targets)))"
proof -
  have c: "copy_assets cfg debug iname (pre @ a # post) [] w = Inl (e, w')"
    using assms by (simp add: copy_assets_append)
  then have t: "transfer cfg debug iname (pre @ a # post) w = Inl (e, w')"
    by (simp add: transfer_def)
  from copy_assets_Inl [OF c] have l: "exported_assets w' = exported_assets w"
    and m: "\<forall>q. path_exists w q \<longrightarrow> path_exists w' q" by (auto simp: path_exists_def)
  have "\<exists>targets. length targets = length pre
            \<and> effects w' = effects w @ map (\<lambda>(s, t). Copied s t) (zip (map fst pre) targets)"
    if "\<not> debug"
  proof -
    from that assms have "copy_assets cfg False iname pre [] w = Inr (qs, w1)"
      "copy_asset cfg False iname a w1 = Inl (e, w')" by auto
    from copy_assets_Inr_effects [OF this(1)] copy_asset_Inl [OF this(2)] show ?thesis by auto
  qed
  with t l m show ?thesis by blast
qed

text \<open>
  C7. After a transfer that went through (every copy, the batch write and the
  clean-up), the source path of every asset not tagged \<open>frames\<close> no longer
  exists. An asset tagged \<open>frames\<close> is left as it was, the whole tree below its
  source path, provided that its source path lies apart from the destinations of the
  batch and from the sources of the other assets (no one is a prefix of the other).
\<close>

theorem clean_up_keeps_frames:
  assumes "transfer cfg False iname exports w = Inr w'"
  shows "(\<forall>(apath, atype, aexp, atag)\<in>set exports.
            atag \<noteq> ''frames'' \<longrightarrow> fs w' apath = None)
       \<and> (\<forall>(fpath, ftype, fexp, ftag)\<in>set exports.
            ftag = ''frames''
            \<and> (\<forall>a\<in>set exports. \<forall>d. get_export_path cfg iname a = Inr d \<longrightarrow>
                  \<not> prefix d fpath \<and> \<not> prefix fpath d)
            \<and> (\<forall>(apath, atype, aexp, atag)\<in>set exports.
                  atag \<noteq> ''frames'' \<longrightarrow> \<not> prefix apath fpath \<and> \<not> prefix fpath apath)
            \<longrightarrow> (\<forall>q. prefix fpath q \<longrightarrow> fs w' q = fs w q))"
proof -
  from assms obtain qs w1 w2 where c: "copy_assets cfg False iname exports [] w = Inr (qs, w1)"
    and x: "execute_queries qs w1 = Inr w2" and k: "clean_up exports w2 = Inr w'"
    by (auto simp: transfer_def split: sum.splits prod.splits)
  have removed: "\<forall>(apath, atype, aexp, atag)\<in>set exports.
            atag \<noteq> ''frames'' \<longrightarrow> fs w' apath = None"
    using clean_up_Inr [OF k] by auto
  have kept: "\<forall>q. prefix fpath q \<longrightarrow> fs w' q = fs w q"
    if f: "(fpath, ftype, fexp, ftag) \<in> set exports"
      and h1: "\<forall>a\<in>set exports. \<forall>d. get_export_path cfg iname a = Inr d \<longrightarrow>
                  \<not> prefix d fpath \<and> \<not> prefix fpath d"
      and h2: "\<forall>(apath, atype, aexp, atag)\<in>set exports.
                  atag \<noteq> ''frames'' \<longrightarrow> \<not> prefix apath fpath \<and> \<not> prefix fpath apath"
    for fpath ftype fexp ftag
  proof (intro allI impI)
    fix q assume q: "prefix fpath q"
    have "\<forall>a\<in>set exports. \<forall>d. get_export_path cfg iname a = Inr d \<longrightarrow>
                 \<not> prefix q d \<and> \<not> prefix d q"
    proof (intro ballI allI impI conjI)
      fix a d assume a: "a \<in> set exports" "get_export_path cfg iname a = Inr d"
      with h1 have n: "\<not> prefix d fpath" "\<not> prefix fpath d" by auto
      show "\<not> prefix q d" using n(2) q by (meson prefix_order.trans)
      show "\<not> prefix d q" using n q by (meson prefix_same_cases)
    qed
    with copy_assets_Inr [OF c] have 1: "fs w1 q = fs w q" by blast
    have 2: "fs w2 q = fs w1 q" using execute_queries_Inr [OF x] by simp
    have "\<forall>a\<in>set exports. snd (snd (snd a)) \<noteq> ''frames'' \<longrightarrow> \<not> prefix (fst a) q"
    proof (intro ballI impI)
      fix a assume a: "a \<in> set exports" "snd (snd (snd a)) \<noteq> ''frames''"
      with h2 have "\<not> prefix (fst a) fpath \<and> \<not> prefix fpath (fst a)" by (cases a) auto
      then show "\<not> prefix (fst a) q" using q by (meson prefix_same_cases)
    qed
    with clean_up_final [of w' exports w2] k have 3: "fs w' q = fs w2 q" by simp
    from 1 2 3 show "fs w' q = fs w q" by simp
  qed
  show ?thesis using removed kept by (auto simp del: fun_upd_apply)
qed

section \<open>The example world\<close>

lemma example_get_pipeline_exports:
  "get_pipeline_exports (example_world faulty) example_interview = example_exports"
  by (simp add: get_pipeline_exports_def get_pipeline_streams_def get_pipeline_frames_def
      get_openface_assets_def example_world_def example_fs_def fetch_record_def parts_of_def
      path_parent_def path_stem_def path_name_def rfind_dot_def div_str_def joinpath_def
      path_exists_def Let_def example_interview_def example_exports_def)

lemma example_transfer_succeeds:
  "\<not> isl (transfer example_config False example_interview example_exports (example_world []))"
  by code_simp

lemma example_destinations:
  "get_export_path example_config example_interview
     ([''/'', ''processed'', ''s1.mp4''], ''file'', ''PROTECTED'', ''streams'') =
     Inr [''/'', ''export_root'', ''PROTECTED'', ''ChicagoA'', ''processed'', ''XX1'',
          ''interviews'', ''followup'', ''s1.mp4'']"
  "get_export_path example_config example_interview
     ([''/'', ''processed'', ''frames'', ''v''], ''directory'', ''PROTECTED'', ''frames'') =
     Inr [''/'', ''export_root'', ''PROTECTED'', ''ChicagoA'', ''processed'', ''XX1'',
          ''interviews'', ''followup'', ''frames'', ''v'']"
  "get_export_path example_config example_interview
     ([''/'', ''processed'', ''of''], ''directory'', ''PROTECTED'', ''openface'') =
     Inr [''/'', ''export_root'', ''PROTECTED'', ''ChicagoA'', ''processed'', ''XX1'',
          ''interviews'', ''followup'', ''of'']"
  by (simp_all add: get_export_path_def example_construct_export_path example_interview_def
      Path_of_def div_str_def parts_of_def joinpath_def)

section \<open>Witnesses of the transfer theorems\<close>

theorem clean_up_keeps_frames_witness:
  "fs (final_world (transfer example_config False example_interview example_exports
         (example_world []))) [''/'', ''processed'', ''s1.mp4''] = None
   \<and> fs (final_world (transfer example_config False example_interview example_exports
           (example_world []))) [''/'', ''processed'', ''frames'', ''v'', ''f1.png'']
       = Some (File ''frame'')"
proof -
  define w' where "w' = final_world (transfer example_config False example_interview
     example_exports (example_world []))"
  have ok: "transfer example_config False example_interview example_exports (example_world [])
        = Inr w'"
    unfolding w'_def using example_transfer_succeeds by (rule final_world_Inr)
  note th = clean_up_keeps_frames [OF ok]
  have m1: "([''/'', ''processed'', ''s1.mp4''], ''file'', ''PROTECTED'', ''streams'')
          \<in> set example_exports"
    by (simp add: example_exports_def)
  have 1: "fs w' [''/'', ''processed'', ''s1.mp4''] = None"
    using th [THEN conjunct1, THEN bspec, OF m1] by simp
  have h1: "\<forall>a\<in>set example_exports. \<forall>d.
        get_export_path example_config example_interview a = Inr d \<longrightarrow>
        \<not> prefix d [''/'', ''processed'', ''frames'', ''v'']
        \<and> \<not> prefix [''/'', ''processed'', ''frames'', ''v''] d"
    by (simp add: example_exports_def example_destinations)
  have h2: "\<forall>(apath, atype, aexp, atag)\<in>set example_exports. atag \<noteq> ''frames'' \<longrightarrow>
        \<not> prefix apath [''/'', ''processed'', ''frames'', ''v'']
        \<and> \<not> prefix [''/'', ''processed'', ''frames'', ''v''] apath"
    by (simp add: example_exports_def)
  have m2: "([''/'', ''processed'', ''frames'', ''v''], ''directory'', ''PROTECTED'', ''frames'')
          \<in> set example_exports"
    by (simp add: example_exports_def)
  have "\<forall>q. prefix [''/'', ''processed'', ''frames'', ''v''] q \<longrightarrow>
      fs w' q = fs (example_world []) q"
    using th [THEN conjunct2, THEN bspec, OF m2] h1 h2 by simp
  then have "fs w' [''/'', ''processed'', ''frames'', ''v'', ''f1.png'']
      = fs (example_world []) [''/'', ''processed'', ''frames'', ''v'', ''f1.png'']"
    by simp
  then have 2: "fs w' [''/'', ''processed'', ''frames'', ''v'', ''f1.png''] = Some (File ''frame'')"
    by (simp add: example_world_def example_fs_def)
  from 1 2 show ?thesis unfolding w'_def by simp
qed

lemma final_world_Inl_snd: "final_world (Inl x) = snd x"
  by (cases x) simp

lemma example_transfer_fails:
  "isl (transfer example_config False example_interview example_exports
          (example_world [[''/'', ''processed'', ''frames'', ''v'']]))"
  by code_simp

lemma example_first_copy:
  "\<not> isl (copy_assets example_config False example_interview
            [([''/'', ''processed'', ''s1.mp4''], ''file'', ''PROTECTED'', ''streams'')] []
            (example_world [[''/'', ''processed'', ''frames'', ''v'']]))"
  by code_simp

lemma example_second_copy:
  "isl (copy_asset example_config False example_interview
          ([''/'', ''processed'', ''frames'', ''v''], ''directory'', ''PROTECTED'', ''frames'')
          (snd (projr (copy_assets example_config False example_interview
            [([''/'', ''processed'', ''s1.mp4''], ''file'', ''PROTECTED'', ''streams'')] []
            (example_world [[''/'', ''processed'', ''frames'', ''v'']])))))"
  by code_simp

theorem transfer_failure_atomic_witness:
  "isl (transfer example_config False example_interview example_exports
          (example_world [[''/'', ''processed'', ''frames'', ''v'']]))
   \<and> exported_assets (final_world (transfer example_config False example_interview
          example_exports (example_world [[''/'', ''processed'', ''frames'', ''v'']]))) = []
   \<and> path_exists (final_world (transfer example_config False example_interview
          example_exports (example_world [[''/'', ''processed'', ''frames'', ''v'']])))
        [''/'', ''processed'', ''s1.mp4'']"
proof -
  define w where "w = example_world [[''/'', ''processed'', ''frames'', ''v'']]"
  define pre where "pre = [([''/'', ''processed'', ''s1.mp4''], ''file'', ''PROTECTED'', ''streams'')]"
  define a where "a = ([''/'', ''processed'', ''frames'', ''v''], ''directory'', ''PROTECTED'', ''frames'')"
  define post where "post = [([''/'', ''processed'', ''of''], ''directory'', ''PROTECTED'', ''openface'')]"
  define r1 where "r1 = copy_assets example_config False example_interview pre [] w"
  define r2 where "r2 = copy_asset example_config False example_interview a (snd (projr r1))"
  have ex: "example_exports = pre @ a # post"
    by (simp add: example_exports_def pre_def a_def post_def)
  have "\<not> isl r1" unfolding r1_def pre_def w_def by (rule example_first_copy)
  then have 1: "copy_assets example_config False example_interview pre [] w
      = Inr (fst (projr r1), snd (projr r1))"
    unfolding r1_def by simp
  have "isl r2" unfolding r2_def r1_def pre_def a_def w_def by (rule example_second_copy)
  then have 2: "copy_asset example_config False example_interview a (snd (projr r1))
      = Inl (fst (projl r2), snd (projl r2))"
    unfolding r2_def by simp
  note th = transfer_failure_atomic [OF 1 2, of post]
  from th have t: "transfer example_config False example_interview example_exports w
      = Inl (fst (projl r2), snd (projl r2))"
    unfolding ex by (rule conjunct1)
  from th have l: "exported_assets (snd (projl r2)) = exported_assets w"
    by (rule conjunct2 [THEN conjunct1])
  from th have m: "\<forall>q. path_exists w q \<longrightarrow> path_exists (snd (projl r2)) q"
    by (rule conjunct2 [THEN conjunct2, THEN conjunct2, THEN conjunct1])
  have e: "path_exists w [''/'', ''processed'', ''s1.mp4'']"
    by (simp add: w_def example_world_def example_fs_def path_exists_def)
  have "isl (transfer example_config False example_interview example_exports w)
     \<and> exported_assets (final_world (transfer example_config False example_interview
          example_exports w)) = []
     \<and> path_exists (final_world (transfer example_config False example_interview
          example_exports w)) [''/'', ''processed'', ''s1.mp4'']"
  proof -
    have lw: "exported_assets w = []" by (simp add: w_def example_world_def)
    from m e have pe: "path_exists (snd (projl r2)) [''/'', ''processed'', ''s1.mp4'']"
      by blast
    show ?thesis unfolding t using l lw pe by (simp add: final_world_Inl_snd)
  qed
  then show ?thesis unfolding w_def .
qed

theorem transfer_order_witness:
  "\<exists>targets rows deleted. length targets = length example_exports
     \<and> effects (final_world (transfer example_config False example_interview example_exports
          (example_world []))) =
        map (\<lambda>(s, t). Copied s t) (zip (map fst example_exports) targets)
          @ Ledger_write rows # map Deleted deleted"
proof -
  define r where "r = transfer example_config False example_interview example_exports
          (example_world [])"
  have ok: "\<not> isl r" unfolding r_def by (rule example_transfer_succeeds)
  from transfer_order [of example_config example_interview example_exports "example_world []"]
  obtain new where new: "effects (final_world r) = effects (example_world []) @ new"
    "\<not> isl r \<longrightarrow>
           (\<exists>targets rows deleted. length targets = length example_exports
              \<and> new = map (\<lambda>(s, t). Copied s t) (zip (map fst example_exports) targets)
                        @ Ledger_write rows # map Deleted deleted)"
    unfolding r_def by blast
  have "effects (example_world []) = []" by (simp add: example_world_def)
  with new ok show ?thesis unfolding r_def by auto
qed

section \<open>Selection and the ledger\<close>

lemma selected_is_ready:
  "get_interview_name_to_process w sid rnd = Some n \<Longrightarrow> n \<in> set (ready_rows w sid)"
  by (auto simp: get_interview_name_to_process_def fetch_record_def order_by_random_limit_1_def
      split: if_splits)

lemma ready_not_exported:
  "n \<in> set (ready_rows w sid) \<Longrightarrow> n \<notin> ea_interview_name ` set (exported_assets w)"
  by (auto simp: ready_rows_def)

lemma transfer_ledger:
  "\<exists>rows. exported_assets (final_world (transfer cfg debug iname exports w)) =
            exported_assets w @ rows
      \<and> (\<forall>r\<in>set rows. ea_interview_name r = iname)
      \<and> (\<not> debug \<and> \<not> isl (transfer cfg debug iname exports w) \<longrightarrow>
            length rows = length exports)
      \<and> upstream (final_world (transfer cfg debug iname exports w)) = upstream w"
proof (cases "copy_assets cfg debug iname exports [] w")
  case (Inl ew)
  obtain e w1 where ew: "ew = (e, w1)" by (cases ew) auto
  with Inl have c: "copy_assets cfg debug iname exports [] w = Inl (e, w1)" by simp
  then have t: "transfer cfg debug iname exports w = Inl (e, w1)" by (simp add: transfer_def)
  from copy_assets_Inl [OF c] show ?thesis by (simp add: t)
next
  case (Inr qw)
  obtain qs w1 where qw: "qw = (qs, w1)" by (cases qw) auto
  with Inr have c: "copy_assets cfg debug iname exports [] w = Inr (qs, w1)" by simp
  from copy_assets_Inr [OF c] have l: "exported_assets w1 = exported_assets w"
    and u: "upstream w1 = upstream w"
    and q: "map (\<lambda>q. ea_asset_path (inserted_row q)) qs = map fst exports"
      "\<forall>q\<in>set qs. ea_interview_name (inserted_row q) = iname" by auto
  from q(1) have len: "length qs = length exports" by (metis length_map)
  show ?thesis
  proof (cases debug)
    case True
    with c have "transfer cfg debug iname exports w = Inr w1" by (simp add: transfer_def)
    with l u True show ?thesis by simp
  next
    case False
    show ?thesis
    proof (cases "execute_queries qs w1")
      case (Inl e)
      with c False have "transfer cfg debug iname exports w = Inl (e, w1)"
        by (simp add: transfer_def)
      with l u show ?thesis by simp
    next
      case (Inr w2)
      with c False have t: "transfer cfg debug iname exports w = clean_up exports w2"
        by (simp add: transfer_def)
      from clean_up_final [OF refl, of exports w2] execute_queries_Inr [OF Inr]
      have "exported_assets (final_world (clean_up exports w2)) =
              exported_assets w @ map inserted_row qs"
        "upstream (final_world (clean_up exports w2)) = upstream w"
        using l u by auto
      then show ?thesis using q(2) len by (simp add: t)
    qed
  qed
qed

lemma export_interview_ledger:
  "\<exists>rows. exported_assets (final_world (export_interview cfg debug iname w)) =
            exported_assets w @ rows
      \<and> (\<forall>r\<in>set rows. ea_interview_name r = iname)
      \<and> (\<not> debug \<and> \<not> isl (export_interview cfg debug iname w) \<longrightarrow>
            length rows = length (get_pipeline_exports w iname))
      \<and> upstream (final_world (export_interview cfg debug iname w)) = upstream w"
  using transfer_ledger [of cfg debug iname "get_pipeline_exports w iname" "emit (Exporting iname) w"]
  by (simp add: export_interview_def emit_def upstream_def)

text \<open>
  C1, as amended. An interview name that has a row in the ledger is never returned by
  the selection, for any study and any random draw. Hence an interview is not selected
  again after a run that changed the ledger, that is, whose batch write succeeded and
  recorded at least one row; a run, not in debug mode, that went through for an
  interview with at least one asset is such a run.
\<close>

theorem ledger_gate:
  "(iname \<in> ea_interview_name ` set (exported_assets w) \<longrightarrow>
      get_interview_name_to_process w sid rnd \<noteq> Some iname)
   \<and> (exported_assets (final_world (export_interview cfg debug iname w)) \<noteq> exported_assets w \<longrightarrow>
        get_interview_name_to_process (final_world (export_interview cfg debug iname w)) sid rnd
          \<noteq> Some iname)
   \<and> (export_interview cfg False iname w = Inr w' \<longrightarrow> get_pipeline_exports w iname \<noteq> [] \<longrightarrow>
        exported_assets w' \<noteq> exported_assets w
        \<and> get_interview_name_to_process w' sid rnd \<noteq> Some iname)"
proof -
  have gate: "get_interview_name_to_process v s r \<noteq> Some iname"
    if "iname \<in> ea_interview_name ` set (exported_assets v)" for v s r
    using that selected_is_ready ready_not_exported by blast
  obtain rows where rows:
    "exported_assets (final_world (export_interview cfg debug iname w)) = exported_assets w @ rows"
    "\<forall>r\<in>set rows. ea_interview_name r = iname"
    using export_interview_ledger by blast
  have second: "get_interview_name_to_process (final_world (export_interview cfg debug iname w)) sid rnd
          \<noteq> Some iname"
    if "exported_assets (final_world (export_interview cfg debug iname w)) \<noteq> exported_assets w"
  proof -
    from that rows(1) have "rows \<noteq> []" by auto
    then obtain r where "r \<in> set rows" by (cases rows) auto
    with rows have "iname \<in> ea_interview_name ` set (exported_assets (final_world (export_interview cfg debug iname w)))"
      by force
    then show ?thesis by (rule gate)
  qed
  have third: "exported_assets w' \<noteq> exported_assets w
        \<and> get_interview_name_to_process w' sid rnd \<noteq> Some iname"
    if ok: "export_interview cfg False iname w = Inr w'" and ne: "get_pipeline_exports w iname \<noteq> []"
  proof -
    obtain rows' where r: "exported_assets w' = exported_assets w @ rows'"
      "\<forall>r\<in>set rows'. ea_interview_name r = iname"
      "length rows' = length (get_pipeline_exports w iname)"
      using export_interview_ledger [of cfg False iname w] ok by auto
    from r(3) ne have "rows' \<noteq> []" by auto
    then obtain x where "x \<in> set rows'" by (cases rows') auto
    with r have "iname \<in> ea_interview_name ` set (exported_assets w')" by force
    then have "get_interview_name_to_process w' sid rnd \<noteq> Some iname" by (rule gate)
    with r(1) \<open>rows' \<noteq> []\<close> show ?thesis by simp
  qed
  from gate second third show ?thesis by blast
qed

text \<open>
  The claim C1 as the specification states it fails for an interview without assets:
  the run goes through, its batch write succeeds with no row, and the interview is
  selected again.
\<close>

theorem rerun_counterexample:
  "\<not> isl (export_interview example_config False ''ChicagoA-XX1-followupInterview'' bare_world)
   \<and> effects (final_world
        (export_interview example_config False ''ChicagoA-XX1-followupInterview'' bare_world)) =
       [Exporting ''ChicagoA-XX1-followupInterview'', Ledger_write []]
   \<and> get_interview_name_to_process
        (final_world
           (export_interview example_config False ''ChicagoA-XX1-followupInterview'' bare_world))
        ''ChicagoA'' 0 = Some ''ChicagoA-XX1-followupInterview''"
  by (simp add: export_interview_def get_pipeline_exports_def get_pipeline_streams_def
      get_pipeline_frames_def get_openface_assets_def fetch_record_def bare_world_def
      transfer_def execute_queries_def emit_def get_interview_name_to_process_def
      order_by_random_limit_1_def ready_rows_def left_join_using_def)

theorem ledger_gate_witness:
  "exported_assets (final_world (export_interview example_config False example_interview
        (example_world []))) \<noteq> []
   \<and> get_interview_name_to_process
        (final_world (export_interview example_config False example_interview
           (example_world []))) ''ChicagoA'' 0 \<noteq> Some example_interview"
proof -
  define r where "r = export_interview example_config False example_interview (example_world [])"
  have "\<not> isl r" unfolding r_def by code_simp
  then have ok: "export_interview example_config False example_interview (example_world [])
      = Inr (final_world r)"
    unfolding r_def by (rule final_world_Inr)
  have ne: "get_pipeline_exports (example_world []) example_interview \<noteq> []"
    by (simp add: example_get_pipeline_exports example_exports_def)
  from ledger_gate [of example_interview "example_world []" "''ChicagoA''" 0 example_config False
      "final_world r"] ok ne
  have "exported_assets (final_world r) \<noteq> exported_assets (example_world [])
          \<and> get_interview_name_to_process (final_world r) ''ChicagoA'' 0 \<noteq> Some example_interview"
    by blast
  moreover have "exported_assets (example_world []) = []" by (simp add: example_world_def)
  ultimately show ?thesis unfolding r_def by simp
qed

section \<open>Scheduler loop: snooze and termination\<close>

lemma ordered_trace_no_sched:
  "ordered_trace all rest es \<Longrightarrow> advances es = 0 \<and> snoozes es = 0"
proof (induction all rest es rule: ordered_trace.induct)
  case (2 all rows es)
  then have "list_all is_deletion es" by simp
  then have "advances es = 0 \<and> snoozes es = 0"
    by (induction es) (auto simp: advances_def snoozes_def elim: is_deletion.elims)
  then show ?case by (simp add: advances_def snoozes_def)
qed (auto simp: advances_def snoozes_def)

lemma transfer_effects:
  "\<exists>new. effects (final_world (transfer cfg debug iname exports w)) = effects w @ new
      \<and> advances new = 0 \<and> snoozes new = 0"
proof (cases debug)
  case True
  have "final_world (transfer cfg True iname exports w) = w"
    using copy_assets_debug [OF refl, where cfg = cfg and iname = iname and xs = exports
        and qs = "[]" and w = w]
    by (auto simp: transfer_def split: sum.splits)
  with True show ?thesis by (simp add: advances_def snoozes_def)
next
  case False
  then have d: "debug = False" by simp
  from transfer_trace [of cfg iname exports w] obtain new where
    "effects (final_world (transfer cfg False iname exports w)) = effects w @ new"
    "ordered_trace (map fst exports) (map fst exports) new"
    by blast
  with ordered_trace_no_sched [of "map fst exports" "map fst exports" new]
  show ?thesis unfolding d by blast
qed

lemma export_interview_effects:
  "\<exists>new. effects (final_world (export_interview cfg debug iname w)) =
            effects w @ Exporting iname # new
      \<and> advances new = 0 \<and> snoozes new = 0"
  using transfer_effects [of cfg debug iname "get_pipeline_exports w iname" "emit (Exporting iname) w"]
  by (auto simp: export_interview_def emit_def)

lemma loop_body_select:
  assumes "get_interview_name_to_process w (study_id st) rnd = Some iname"
  shows "loop_body cfg debug rnd (st, w) =
           (case export_interview cfg debug iname w of
              Inl ew \<Rightarrow> Inl ew
            | Inr w1 \<Rightarrow> Inr (st\<lparr>COUNTER := COUNTER st + 1\<rparr>, w1))"
  using assms by (simp add: loop_body_def)

lemma loop_body_snooze:
  assumes "get_interview_name_to_process w (study_id st) rnd = None"
    and "get_studies cfg \<noteq> []" and "study_id st = last (get_studies cfg)"
  shows "loop_body cfg debug rnd (st, w) =
           Inr (\<lparr>study_id = hd (get_studies cfg), COUNTER = 0\<rparr>,
                w\<lparr>effects := effects w
                     @ (if COUNTER st > 0 then [Log_exported (COUNTER st)] else [])
                     @ [Snooze, Restarting (hd (get_studies cfg))]\<rparr>)"
  using assms by (simp add: loop_body_def emit_def Let_def)

lemma list_index_nth:
  "distinct xs \<Longrightarrow> i < length xs \<Longrightarrow> list_index xs (xs ! i) = Inr i"
proof (induction xs arbitrary: i)
  case Nil
  then show ?case by simp
next
  case (Cons x xs)
  then show ?case by (cases i) (auto simp: nth_eq_iff_index_eq)
qed

lemma loop_body_switch:
  assumes "get_interview_name_to_process w (study_id st) rnd = None"
    and "distinct (get_studies cfg)" and "Suc i < length (get_studies cfg)"
    and "study_id st = get_studies cfg ! i"
  shows "loop_body cfg debug rnd (st, w) =
           Inr (st\<lparr>study_id := get_studies cfg ! Suc i\<rparr>,
                w\<lparr>effects := effects w @ [Switching (get_studies cfg ! Suc i)]\<rparr>)"
proof -
  from assms have ne: "get_studies cfg \<noteq> []" by auto
  have "get_studies cfg ! i \<noteq> last (get_studies cfg)"
    using assms(2,3) ne by (simp add: last_conv_nth nth_eq_iff_index_eq)
  moreover have "list_index (get_studies cfg) (get_studies cfg ! i) = Inr i"
    using assms(2,3) by (simp add: list_index_nth)
  ultimately show ?thesis using assms ne by (simp add: loop_body_def emit_def Let_def)
qed

lemma no_ready_rows: "ready_rows w sid = [] \<Longrightarrow> get_interview_name_to_process w sid rnd = None"
  by (simp add: get_interview_name_to_process_def order_by_random_limit_1_def fetch_record_def)

lemma ready_rows_effects [simp]: "ready_rows (w\<lparr>effects := es\<rparr>) sid = ready_rows w sid"
  by (simp add: ready_rows_def)

lemma empty_pass_from:
  assumes "distinct (get_studies cfg)"
    and "\<forall>sid\<in>set (get_studies cfg). ready_rows w sid = []"
  shows "i < length (get_studies cfg) \<Longrightarrow> length (get_studies cfg) - i = Suc n \<Longrightarrow>
     run_loop cfg debug rnd (Suc n) (\<lparr>study_id = get_studies cfg ! i, COUNTER = c\<rparr>, w\<lparr>effects := es\<rparr>) =
       Inr (\<lparr>study_id = hd (get_studies cfg), COUNTER = 0\<rparr>,
            w\<lparr>effects := es @ map Switching (drop (Suc i) (get_studies cfg))
                 @ (if c > 0 then [Log_exported c] else [])
                 @ [Snooze, Restarting (hd (get_studies cfg))]\<rparr>)"
proof (induction n arbitrary: i es rnd)
  case 0
  then have i: "i = length (get_studies cfg) - 1" by arith
  from 0 have ne: "get_studies cfg \<noteq> []" by auto
  have l: "get_studies cfg ! i = last (get_studies cfg)" "get_studies cfg \<noteq> []"
    "drop (Suc i) (get_studies cfg) = []"
    using last_conv_nth [OF ne] i ne 0 by auto
  have "get_interview_name_to_process (w\<lparr>effects := es\<rparr>) (get_studies cfg ! i) (rnd 0) = None"
    using assms(2) 0(1) by (simp add: no_ready_rows)
  then have "loop_body cfg debug (rnd 0)
        (\<lparr>study_id = get_studies cfg ! i, COUNTER = c\<rparr>, w\<lparr>effects := es\<rparr>) =
      Inr (\<lparr>study_id = hd (get_studies cfg), COUNTER = 0\<rparr>,
           w\<lparr>effects := es @ (if c > 0 then [Log_exported c] else [])
                @ [Snooze, Restarting (hd (get_studies cfg))]\<rparr>)"
    using loop_body_snooze [of "w\<lparr>effects := es\<rparr>"
        "\<lparr>study_id = get_studies cfg ! i, COUNTER = c\<rparr>" "rnd 0" cfg debug] l(1,2)
    by simp
  then show ?case using l(3) by simp
next
  case (Suc n)
  then have i: "Suc i < length (get_studies cfg)" "length (get_studies cfg) - Suc i = Suc n" by auto
  have "get_interview_name_to_process (w\<lparr>effects := es\<rparr>) (get_studies cfg ! i) (rnd 0) = None"
    using assms(2) Suc(2) by (simp add: no_ready_rows)
  then have step: "loop_body cfg debug (rnd 0) (\<lparr>study_id = get_studies cfg ! i, COUNTER = c\<rparr>, w\<lparr>effects := es\<rparr>) =
     Inr (\<lparr>study_id = get_studies cfg ! Suc i, COUNTER = c\<rparr>, w\<lparr>effects := es @ [Switching (get_studies cfg ! Suc i)]\<rparr>)"
    using loop_body_switch [of "w\<lparr>effects := es\<rparr>"
        "\<lparr>study_id = get_studies cfg ! i, COUNTER = c\<rparr>" "rnd 0" cfg i debug] assms(1) i(1)
    by simp
  have d: "drop (Suc i) (get_studies cfg) = get_studies cfg ! Suc i # drop (Suc (Suc i)) (get_studies cfg)"
    using i(1) by (simp add: Cons_nth_drop_Suc)
  show ?case
    using Suc.IH [OF i, of "\<lambda>i. rnd (Suc i)" "es @ [Switching (get_studies cfg ! Suc i)]"] step d
    by simp
qed

lemma world_after_select:
  assumes "get_interview_name_to_process w (study_id st) rnd = Some iname"
  shows "world_after (loop_body cfg debug rnd (st, w)) =
           final_world (export_interview cfg debug iname w)"
  using assms by (cases "export_interview cfg debug iname w") (auto simp: loop_body_select)

text \<open>
  C6. One turn of the loop snoozes at most once, and it does so exactly when the
  current study reports no ready interview and is the last study of the list; on
  that turn a progress report is emitted and the counter reset exactly when the
  counter is positive, and the cursor returns to the first study. Over a list of
  distinct study identifiers, a pass that starts at the first study and finds every
  study empty takes as many turns as there are studies and consists of the advances
  through the list followed by one snooze: one snooze for a full empty pass, not
  one for each empty study.
\<close>

theorem snooze_once_per_empty_pass:
  assumes "get_studies cfg \<noteq> []"
  shows "snoozes (effects_since w (world_after (loop_body cfg debug rnd (st, w)))) =
           (if get_interview_name_to_process w (study_id st) rnd = None
               \<and> study_id st = last (get_studies cfg) then 1 else 0)
       \<and> (get_interview_name_to_process w (study_id st) rnd = None
             \<and> study_id st = last (get_studies cfg) \<longrightarrow>
           loop_body cfg debug rnd (st, w) =
             Inr (\<lparr>study_id = hd (get_studies cfg), COUNTER = 0\<rparr>,
                  w\<lparr>effects := effects w
                       @ (if COUNTER st > 0 then [Log_exported (COUNTER st)] else [])
                       @ [Snooze, Restarting (hd (get_studies cfg))]\<rparr>))
       \<and> (distinct (get_studies cfg)
             \<and> (\<forall>sid\<in>set (get_studies cfg). ready_rows w sid = []) \<longrightarrow>
           run_loop cfg debug rnds (length (get_studies cfg))
               (\<lparr>study_id = hd (get_studies cfg), COUNTER = c\<rparr>, w) =
             Inr (\<lparr>study_id = hd (get_studies cfg), COUNTER = 0\<rparr>,
                  w\<lparr>effects := effects w @ map Switching (tl (get_studies cfg))
                       @ (if c > 0 then [Log_exported c] else [])
                       @ [Snooze, Restarting (hd (get_studies cfg))]\<rparr>))"
proof (intro conjI impI)
  show "snoozes (effects_since w (world_after (loop_body cfg debug rnd (st, w)))) =
           (if get_interview_name_to_process w (study_id st) rnd = None
               \<and> study_id st = last (get_studies cfg) then 1 else 0)"
  proof (cases "get_interview_name_to_process w (study_id st) rnd")
    case (Some iname)
    from export_interview_effects [of cfg debug iname w] obtain new where
      "effects (final_world (export_interview cfg debug iname w)) =
         effects w @ Exporting iname # new" "snoozes new = 0" by blast
    then show ?thesis using Some
      by (simp add: world_after_select [OF Some] effects_since_def snoozes_def)
  next
    case None
    show ?thesis
    proof (cases "study_id st = last (get_studies cfg)")
      case True
      with None assms show ?thesis
        by (simp add: loop_body_snooze effects_since_def snoozes_def)
    next
      case False
      with None assms show ?thesis
        by (auto simp: loop_body_def Let_def emit_def effects_since_def snoozes_def
            split: sum.splits)
    qed
  qed
next
  assume "get_interview_name_to_process w (study_id st) rnd = None
             \<and> study_id st = last (get_studies cfg)"
  then have a: "get_interview_name_to_process w (study_id st) rnd = None"
    and b: "study_id st = last (get_studies cfg)" by blast+
  show "loop_body cfg debug rnd (st, w) =
             Inr (\<lparr>study_id = hd (get_studies cfg), COUNTER = 0\<rparr>,
                  w\<lparr>effects := effects w
                       @ (if COUNTER st > 0 then [Log_exported (COUNTER st)] else [])
                       @ [Snooze, Restarting (hd (get_studies cfg))]\<rparr>)"
    by (rule loop_body_snooze [OF a assms b])
next
  assume h: "distinct (get_studies cfg)
             \<and> (\<forall>sid\<in>set (get_studies cfg). ready_rows w sid = [])"
  from assms obtain n where n: "length (get_studies cfg) = Suc n"
    by (cases "get_studies cfg") auto
  from assms have z: "get_studies cfg ! 0 = hd (get_studies cfg)"
    "drop (Suc 0) (get_studies cfg) = tl (get_studies cfg)"
    by (simp_all add: hd_conv_nth drop_Suc)
  from empty_pass_from [of cfg w 0 n debug rnds c "effects w"] h n z
  show "run_loop cfg debug rnds (length (get_studies cfg))
               (\<lparr>study_id = hd (get_studies cfg), COUNTER = c\<rparr>, w) =
             Inr (\<lparr>study_id = hd (get_studies cfg), COUNTER = 0\<rparr>,
                  w\<lparr>effects := effects w @ map Switching (tl (get_studies cfg))
                       @ (if c > 0 then [Log_exported c] else [])
                       @ [Snooze, Restarting (hd (get_studies cfg))]\<rparr>)"
    by simp
qed

lemma copy_asset_fault:
  assumes "\<not> debug" "copy_fault w apath" "atype = ''file'' \<or> atype = ''directory''"
    and "get_export_path cfg iname (apath, atype, aexp, atag) = Inr d"
  shows "\<exists>w1. copy_asset cfg debug iname (apath, atype, aexp, atag) w = Inl (OSError, w1)"
proof (cases "atype = ''file''")
  case True
  show ?thesis
  proof (cases "if \<not> path_exists w (path_parent d) then mkdir_parents (path_parent d) w else Inr w")
    case (Inl e)
    then have "e = OSError" by (auto simp: mkdir_parents_def split: if_splits)
    with Inl assms True show ?thesis by (simp add: copy_asset_def)
  next
    case (Inr w1)
    then have "copy_fault w1 = copy_fault w"
      using mkdir_parents_Inr [of "path_parent d" w w1] by (auto simp: upstream_def split: if_splits)
    with assms(2) have "copy2 apath d w1 = Inl OSError" by (simp add: copy2_def)
    with Inr assms True show ?thesis by (simp add: copy_asset_def)
  qed
next
  case False
  with assms have "copytree apath d w = Inl OSError" by (simp add: copytree_def)
  with False assms show ?thesis by (simp add: copy_asset_def)
qed

text \<open>
  C8, as amended. A transfer error is not caught: when the copy loop of the selected
  interview raises, the exception leaves the scheduler loop and ends the process, so
  that no later turn takes place; no ledger row has been written and every path that
  existed still exists. A copy that the environment refuses raises OSError, and an
  uncaught exception gives the exit status 1. An asset type other than \<open>file\<close>
  and \<open>directory\<close> ends the process by \<open>sys.exit(1)\<close>, and so does a
  configuration file that does not exist or a default configuration that is not
  confirmed at the start.
\<close>

theorem transfer_error_ends_process:
  "(get_interview_name_to_process w (study_id st) (rnd 0) = Some iname \<longrightarrow>
      copy_assets cfg debug iname (get_pipeline_exports w iname) [] (emit (Exporting iname) w) =
        Inl (e, w') \<longrightarrow>
      run_loop cfg debug rnd (Suc n) (st, w) = Inl (e, w')
      \<and> exported_assets w' = exported_assets w
      \<and> (\<forall>q. path_exists w q \<longrightarrow> path_exists w' q))
   \<and> (\<not> debug \<longrightarrow> copy_fault w apath \<longrightarrow> atype = ''file'' \<or> atype = ''directory'' \<longrightarrow>
        get_export_path cfg iname (apath, atype, aexp, atag) = Inr d \<longrightarrow>
        (\<exists>w1. copy_asset cfg debug iname (apath, atype, aexp, atag) w = Inl (OSError, w1)))
   \<and> (atype \<noteq> ''file'' \<longrightarrow> atype \<noteq> ''directory'' \<longrightarrow>
        get_export_path cfg iname (apath, atype, aexp, atag) = Inr d \<longrightarrow>
        copy_asset cfg debug iname (apath, atype, aexp, atag) w = Inl (SystemExit 1, w))
   \<and> exit_status OSError = 1 \<and> exit_status (SystemExit 1) = 1
   \<and> (args_config \<noteq> None \<longrightarrow> args_config \<noteq> Some [] \<longrightarrow> \<not> file_exists (the args_config) \<longrightarrow>
        resolve_config_file args_config file_exists confirmed default_config =
          Inl (SystemExit 1))
   \<and> (args_config = None \<or> args_config = Some [] \<longrightarrow> \<not> confirmed \<longrightarrow>
        resolve_config_file args_config file_exists confirmed default_config =
          Inl (SystemExit 1))"
proof (intro conjI impI)
  assume sel: "get_interview_name_to_process w (study_id st) (rnd 0) = Some iname"
    and c: "copy_assets cfg debug iname (get_pipeline_exports w iname) []
              (emit (Exporting iname) w) = Inl (e, w')"
  from c have "export_interview cfg debug iname w = Inl (e, w')"
    by (simp add: export_interview_def transfer_def)
  with sel have "loop_body cfg debug (rnd 0) (st, w) = Inl (e, w')"
    by (simp add: loop_body_select)
  then show "run_loop cfg debug rnd (Suc n) (st, w) = Inl (e, w')" by simp
  from copy_assets_Inl [OF c] show "exported_assets w' = exported_assets w"
    by (simp add: emit_def)
  from copy_assets_Inl [OF c] show "\<forall>q. path_exists w q \<longrightarrow> path_exists w' q"
    by (simp add: emit_def path_exists_def)
next
  assume "\<not> debug" "copy_fault w apath" "atype = ''file'' \<or> atype = ''directory''"
    "get_export_path cfg iname (apath, atype, aexp, atag) = Inr d"
  then show "\<exists>w1. copy_asset cfg debug iname (apath, atype, aexp, atag) w = Inl (OSError, w1)"
    by (rule copy_asset_fault)
next
  assume "atype \<noteq> ''file''" "atype \<noteq> ''directory''"
    "get_export_path cfg iname (apath, atype, aexp, atag) = Inr d"
  then show "copy_asset cfg debug iname (apath, atype, aexp, atag) w = Inl (SystemExit 1, w)"
    by (simp add: copy_asset_def)
qed (auto simp: resolve_config_file_def)

lemma example_studies: "get_studies example_config = [''ChicagoA'', ''ChicagoB'']"
  by (simp add: example_config_def)

theorem snooze_once_per_empty_pass_witness:
  "run_loop example_config False (\<lambda>i. 0) (Suc (Suc 0))
     (\<lparr>study_id = ''ChicagoA'', COUNTER = 3\<rparr>, idle_world) =
   Inr (\<lparr>study_id = ''ChicagoA'', COUNTER = 0\<rparr>,
        idle_world\<lparr>effects := [Switching ''ChicagoB'', Log_exported 3, Snooze,
                                 Restarting ''ChicagoA'']\<rparr>)
   \<and> loop_body example_config False 0 (\<lparr>study_id = ''ChicagoB'', COUNTER = 0\<rparr>, idle_world) =
   Inr (\<lparr>study_id = ''ChicagoA'', COUNTER = 0\<rparr>,
        idle_world\<lparr>effects := [Snooze, Restarting ''ChicagoA'']\<rparr>)"
proof -
  have ne: "get_studies example_config \<noteq> []" by (simp add: example_studies)
  have d: "distinct (get_studies example_config)
      \<and> (\<forall>sid\<in>set (get_studies example_config). ready_rows idle_world sid = [])"
    by (simp add: example_studies ready_rows_def idle_world_def left_join_using_def)
  have s: "get_interview_name_to_process idle_world
        (study_id \<lparr>study_id = ''ChicagoB'', COUNTER = 0\<rparr>) 0 = None
      \<and> study_id \<lparr>study_id = ''ChicagoB'', COUNTER = 0\<rparr> = last (get_studies example_config)"
    by (simp add: example_studies no_ready_rows ready_rows_def idle_world_def left_join_using_def)
  have e: "effects idle_world = []" by (simp add: idle_world_def)
  note th = snooze_once_per_empty_pass [OF ne, of idle_world False]
  from th [of 0 "\<lparr>study_id = ''ChicagoB'', COUNTER = 0\<rparr>", THEN conjunct2, THEN conjunct1,
      rule_format, OF s]
  have 1: "loop_body example_config False 0 (\<lparr>study_id = ''ChicagoB'', COUNTER = 0\<rparr>, idle_world) =
   Inr (\<lparr>study_id = ''ChicagoA'', COUNTER = 0\<rparr>,
        idle_world\<lparr>effects := [Snooze, Restarting ''ChicagoA'']\<rparr>)"
    unfolding example_studies e by simp
  from th [THEN conjunct2, THEN conjunct2, rule_format, OF d, of "\<lambda>i. 0" 3]
  have 2: "run_loop example_config False (\<lambda>i. 0) (Suc (Suc 0))
     (\<lparr>study_id = ''ChicagoA'', COUNTER = 3\<rparr>, idle_world) =
   Inr (\<lparr>study_id = ''ChicagoA'', COUNTER = 0\<rparr>,
        idle_world\<lparr>effects := [Switching ''ChicagoB'', Log_exported 3, Snooze,
                                 Restarting ''ChicagoA'']\<rparr>)"
    unfolding example_studies e by (simp del: run_loop.simps)
  from 1 2 show ?thesis by simp
qed

lemma world_after_Inl_snd: "world_after (Inl x) = snd x"
  by (cases x) simp

lemma example_selected:
  "get_interview_name_to_process (example_world faulty) ''ChicagoA'' 0 = Some example_interview"
  by (simp add: get_interview_name_to_process_def order_by_random_limit_1_def fetch_record_def
      ready_rows_def left_join_using_def example_world_def example_interview_def)

lemma example_copy_fails:
  "isl (copy_assets example_config False example_interview example_exports []
          (emit (Exporting example_interview)
             (example_world [[''/'', ''processed'', ''frames'', ''v'']])))"
  by code_simp

theorem transfer_error_ends_process_witness:
  "isl (run_loop example_config False (\<lambda>i. 0) (Suc 0)
          (\<lparr>study_id = ''ChicagoA'', COUNTER = 0\<rparr>,
           example_world [[''/'', ''processed'', ''frames'', ''v'']]))
   \<and> exported_assets (world_after (run_loop example_config False (\<lambda>i. 0) (Suc 0)
          (\<lparr>study_id = ''ChicagoA'', COUNTER = 0\<rparr>,
           example_world [[''/'', ''processed'', ''frames'', ''v'']]))) = []"
proof -
  define w where "w = example_world [[''/'', ''processed'', ''frames'', ''v'']]"
  define r where "r = copy_assets example_config False example_interview
      (get_pipeline_exports w example_interview) [] (emit (Exporting example_interview) w)"
  have "isl r"
    unfolding r_def w_def example_get_pipeline_exports by (rule example_copy_fails)
  then have c: "copy_assets example_config False example_interview
      (get_pipeline_exports w example_interview) [] (emit (Exporting example_interview) w)
      = Inl (fst (projl r), snd (projl r))"
    unfolding r_def by simp
  have sel: "get_interview_name_to_process w
      (study_id \<lparr>study_id = ''ChicagoA'', COUNTER = 0\<rparr>) 0 = Some example_interview"
    unfolding w_def by (simp add: example_selected)
  from transfer_error_ends_process [where rnd = "\<lambda>i. 0" and w = w and n = 0
      and st = "\<lparr>study_id = ''ChicagoA'', COUNTER = 0\<rparr>", THEN conjunct1, rule_format, OF sel c]
  have t: "run_loop example_config False (\<lambda>i. 0) (Suc 0)
          (\<lparr>study_id = ''ChicagoA'', COUNTER = 0\<rparr>, w) = Inl (fst (projl r), snd (projl r))"
    and l: "exported_assets (snd (projl r)) = exported_assets w"
    by blast+
  have "exported_assets w = []" by (simp add: w_def example_world_def)
  with l have "isl (run_loop example_config False (\<lambda>i. 0) (Suc 0)
          (\<lparr>study_id = ''ChicagoA'', COUNTER = 0\<rparr>, w))
   \<and> exported_assets (world_after (run_loop example_config False (\<lambda>i. 0) (Suc 0)
          (\<lparr>study_id = ''ChicagoA'', COUNTER = 0\<rparr>, w))) = []"
    unfolding t by (simp add: world_after_Inl_snd)
  then show ?thesis unfolding w_def .
qed

text \<open>
  The claim C8 as the specification states it fails: after a copy failure there is
  no second turn of the loop, the process has ended with OSError.
\<close>

theorem transfer_error_counterexample:
  "isl (run_loop example_config False (\<lambda>i. 0) (Suc (Suc 0))
          (\<lparr>study_id = ''ChicagoA'', COUNTER = 0\<rparr>,
           example_world [[''/'', ''processed'', ''frames'', ''v'']]))
   \<and> fst (projl (run_loop example_config False (\<lambda>i. 0) (Suc (Suc 0))
          (\<lparr>study_id = ''ChicagoA'', COUNTER = 0\<rparr>,
           example_world [[''/'', ''processed'', ''frames'', ''v'']]))) = OSError"
  by code_simp

section \<open>Scheduler loop: draining the studies in turn\<close>

lemma run_loop_add:
  "run_loop cfg debug rnd (m + n) sw =
     (case run_loop cfg debug rnd m sw of
        Inl ew \<Rightarrow> Inl ew
      | Inr sw1 \<Rightarrow> run_loop cfg debug (\<lambda>i. rnd (i + m)) n sw1)"
  by (induction m arbitrary: rnd sw) (auto split: sum.splits)

lemma unless_ended_compose:
  assumes "\<exists>m. unless_ended P (run_loop cfg debug rnd m sw)"
    and "\<And>sw1 rnd1. P sw1 \<Longrightarrow> \<exists>n. unless_ended Q (run_loop cfg debug rnd1 n sw1)"
  shows "\<exists>n. unless_ended Q (run_loop cfg debug rnd n sw)"
proof -
  from assms(1) obtain m where m: "unless_ended P (run_loop cfg debug rnd m sw)" by blast
  show ?thesis
  proof (cases "run_loop cfg debug rnd m sw")
    case (Inl ew)
    then have "unless_ended Q (run_loop cfg debug rnd m sw)" by simp
    then show ?thesis by blast
  next
    case (Inr sw1)
    with m have "P sw1" by simp
    from assms(2) [OF this, of "\<lambda>i. rnd (i + m)"] obtain n where
      "unless_ended Q (run_loop cfg debug (\<lambda>i. rnd (i + m)) n sw1)" by blast
    with Inr have "unless_ended Q (run_loop cfg debug rnd (m + n) sw)"
      by (simp add: run_loop_add)
    then show ?thesis by blast
  qed
qed

lemma joined_names: "fst ` set (left_join_using ps ls) \<subseteq> set ps"
  by (auto simp: left_join_using_def split: list.splits)

lemma ready_rows_reported: "iname \<in> set (ready_rows w sid) \<Longrightarrow> iname \<in> set (pdf_reports w)"
  using joined_names [of "pdf_reports w" "load_openface w"] by (auto simp: ready_rows_def)

lemma joined_rows:
  assumes "(n, Some r) \<in> set (left_join_using ps ls)"
  shows "r \<in> set ls \<and> lof_interview_name r = n"
proof -
  from assms obtain p where p: "p \<in> set ps"
    "(n, Some r) \<in> set (case filter (\<lambda>l. lof_interview_name l = p) ls of
                            [] \<Rightarrow> [(p, None)]
                          | m # ms \<Rightarrow> map (\<lambda>l. (p, Some l)) (m # ms))"
    by (auto simp: left_join_using_def)
  show ?thesis
  proof (cases "filter (\<lambda>l. lof_interview_name l = p) ls")
    case Nil
    with p show ?thesis by simp
  next
    case (Cons m ms)
    with p(2) have np: "n = p" and "r \<in> set (m # ms)" by auto
    with Cons have "r \<in> set (filter (\<lambda>l. lof_interview_name l = p) ls)" by simp
    with np show ?thesis by simp
  qed
qed

lemma ready_rows_study:
  assumes "iname \<in> set (ready_rows w sid)"
  shows "\<exists>r\<in>set (load_openface w). lof_interview_name r = iname \<and> lof_study_id r = sid"
proof -
  from assms obtain l where l: "(iname, l) \<in> set (left_join_using (pdf_reports w) (load_openface w))"
    "case l of None \<Rightarrow> False | Some r \<Rightarrow> lof_study_id r = sid"
    by (auto simp: ready_rows_def)
  then obtain r where r: "l = Some r" "lof_study_id r = sid" by (cases l) auto
  with l(1) joined_rows [of iname r] show ?thesis by blast
qed

lemma ready_rows_other_study:
  assumes "one_study_per_interview w" "iname \<in> set (ready_rows w sid)" "sid' \<noteq> sid"
  shows "iname \<notin> set (ready_rows w sid')"
proof
  assume "iname \<in> set (ready_rows w sid')"
  from ready_rows_study [OF this] obtain r' where r': "r' \<in> set (load_openface w)"
    "lof_interview_name r' = iname" "lof_study_id r' = sid'" by blast
  from ready_rows_study [OF assms(2)] obtain r where r: "r \<in> set (load_openface w)"
    "lof_interview_name r = iname" "lof_study_id r = sid" by blast
  from assms(1) [unfolded one_study_per_interview_def, rule_format, OF r(1) r'(1)] r(2) r'(2)
  have "lof_study_id r = lof_study_id r'" by simp
  with r(3) r'(3) assms(3) show False by simp
qed

lemma ready_rows_after:
  assumes "upstream w' = upstream w" "exported_assets w' = exported_assets w @ rows"
    "\<forall>r\<in>set rows. ea_interview_name r = iname" "rows \<noteq> []"
  shows "ready_rows w' sid = filter (\<lambda>n. n \<noteq> iname) (ready_rows w sid)"
proof -
  from assms(3,4) have "ea_interview_name ` set rows = {iname}"
    by (cases rows) auto
  then have names: "set (map ea_interview_name (exported_assets w')) =
      set (map ea_interview_name (exported_assets w)) \<union> {iname}"
    using assms(2) by auto
  from assms(1) have tabs: "pdf_reports w' = pdf_reports w" "load_openface w' = load_openface w"
    by (simp_all add: upstream_def)
  let ?J = "left_join_using (pdf_reports w) (load_openface w)"
  let ?C = "\<lambda>x. (case snd x of None \<Rightarrow> False | Some r \<Rightarrow> lof_study_id r = sid)
                 \<and> fst x \<notin> set (map ea_interview_name (exported_assets w))"
  have "filter (\<lambda>x. (case snd x of None \<Rightarrow> False | Some r \<Rightarrow> lof_study_id r = sid)
                 \<and> fst x \<notin> set (map ea_interview_name (exported_assets w'))) ?J
        = filter (\<lambda>x. fst x \<noteq> iname) (filter ?C ?J)"
    unfolding names filter_filter by (rule filter_cong) auto
  then show ?thesis
    by (simp add: ready_rows_def tabs case_prod_unfold filter_map comp_def)
qed

lemma select_some:
  "ready_rows w sid \<noteq> [] \<Longrightarrow>
     \<exists>iname\<in>set (ready_rows w sid). get_interview_name_to_process w sid rnd = Some iname"
  by (simp add: get_interview_name_to_process_def order_by_random_limit_1_def fetch_record_def)

lemma exports_nonempty:
  "all_have_assets w \<Longrightarrow> iname \<in> set (pdf_reports w) \<Longrightarrow> get_pipeline_exports w iname \<noteq> []"
  by (auto simp: all_have_assets_def get_pipeline_exports_def get_pipeline_streams_def
      get_openface_assets_def)

lemma upstream_hyps:
  "upstream w' = upstream w \<Longrightarrow>
     all_have_assets w' = all_have_assets w
     \<and> one_study_per_interview w' = one_study_per_interview w"
  by (simp add: upstream_def all_have_assets_def one_study_per_interview_def)

lemma step_export:
  assumes sel: "get_interview_name_to_process w (study_id st) r = Some iname"
    and a: "all_have_assets w"
    and step: "loop_body cfg False r (st, w) = Inr (st', w')"
  shows "study_id st' = study_id st \<and> upstream w' = upstream w
     \<and> (\<forall>sid. ready_rows w' sid = filter (\<lambda>n. n \<noteq> iname) (ready_rows w sid))
     \<and> (\<exists>new. effects w' = effects w @ Exporting iname # new
            \<and> advances new = 0 \<and> snoozes new = 0)"
proof -
  from step sel have e: "export_interview cfg False iname w = Inr w'"
    and s: "st' = st\<lparr>COUNTER := COUNTER st + 1\<rparr>"
    by (auto simp: loop_body_select split: sum.splits)
  from export_interview_ledger [of cfg False iname w] e obtain rows where rows:
    "exported_assets w' = exported_assets w @ rows"
    "\<forall>r\<in>set rows. ea_interview_name r = iname"
    "length rows = length (get_pipeline_exports w iname)"
    "upstream w' = upstream w"
    by auto
  from selected_is_ready [OF sel] have "iname \<in> set (pdf_reports w)"
    by (rule ready_rows_reported)
  with a have "get_pipeline_exports w iname \<noteq> []" by (rule exports_nonempty)
  with rows(3) have ne: "rows \<noteq> []" by auto
  have r: "\<forall>sid. ready_rows w' sid = filter (\<lambda>n. n \<noteq> iname) (ready_rows w sid)"
    using ready_rows_after [OF rows(4) rows(1) rows(2) ne] by simp
  from export_interview_effects [of cfg False iname w] e
  have "\<exists>new. effects w' = effects w @ Exporting iname # new
            \<and> advances new = 0 \<and> snoozes new = 0" by simp
  with s rows(4) r show ?thesis by simp
qed

lemma drain:
  assumes "all_have_assets w" "one_study_per_interview w"
  shows "\<exists>n. unless_ended (drained (st, w)) (run_loop cfg False rnd n (st, w))"
  using assms
proof (induction "length (ready_rows w (study_id st))" arbitrary: st w rnd rule: less_induct)
  case less
  show ?case
  proof (cases "ready_rows w (study_id st) = []")
    case True
    then have "drained (st, w) (st, w)"
      by (simp add: drained_def advances_def snoozes_def)
    then have "unless_ended (drained (st, w)) (run_loop cfg False rnd 0 (st, w))" by simp
    then show ?thesis by blast
  next
    case False
    from select_some [OF False, of "rnd 0"] obtain iname where
      iname: "iname \<in> set (ready_rows w (study_id st))"
      and sel: "get_interview_name_to_process w (study_id st) (rnd 0) = Some iname"
      by blast
    show ?thesis
    proof (cases "loop_body cfg False (rnd 0) (st, w)")
      case (Inl ew)
      then have "unless_ended (drained (st, w)) (run_loop cfg False rnd (Suc 0) (st, w))"
        by simp
      then show ?thesis by blast
    next
      case (Inr sw1)
      obtain st1 w1 where sw1: "sw1 = (st1, w1)" by (cases sw1) auto
      with Inr have step: "loop_body cfg False (rnd 0) (st, w) = Inr (st1, w1)" by simp
      from step_export [OF sel less.prems(1) step] obtain new where s1:
        "study_id st1 = study_id st" "upstream w1 = upstream w"
        "\<forall>sid. ready_rows w1 sid = filter (\<lambda>n. n \<noteq> iname) (ready_rows w sid)"
        "effects w1 = effects w @ Exporting iname # new" "advances new = 0" "snoozes new = 0"
        by blast
      have smaller: "length (ready_rows w1 (study_id st1)) < length (ready_rows w (study_id st))"
        using s1(1,3) iname by (simp add: length_filter_less)
      have hyps: "all_have_assets w1" "one_study_per_interview w1"
        using upstream_hyps [OF s1(2)] less.prems by simp_all
      from less.hyps [OF smaller hyps, of "\<lambda>i. rnd (Suc i)"] obtain n where
        n: "unless_ended (drained (st1, w1)) (run_loop cfg False (\<lambda>i. rnd (Suc i)) n (st1, w1))"
        by blast
      have other: "ready_rows w1 sid = ready_rows w sid" if "sid \<noteq> study_id st" for sid
      proof -
        from ready_rows_other_study [OF less.prems(2) iname that]
        have "filter (\<lambda>n. n \<noteq> iname) (ready_rows w sid) = ready_rows w sid"
          by (auto simp: filter_id_conv)
        with s1(3) show ?thesis by simp
      qed
      have "unless_ended (drained (st, w)) (run_loop cfg False rnd (Suc n) (st, w))"
      proof (cases "run_loop cfg False (\<lambda>i. rnd (Suc i)) n (st1, w1)")
        case (Inl ew)
        with step show ?thesis by simp
      next
        case (Inr sw2)
        obtain st2 w2 where sw2: "sw2 = (st2, w2)" by (cases sw2) auto
        from n Inr sw2 have d: "drained (st1, w1) (st2, w2)" by simp
        then obtain new2 where d2: "study_id st2 = study_id st1" "upstream w2 = upstream w1"
          "ready_rows w2 (study_id st1) = []"
          "\<forall>sid. sid \<noteq> study_id st1 \<longrightarrow> ready_rows w2 sid = ready_rows w1 sid"
          "effects w2 = effects w1 @ new2" "advances new2 = 0" "snoozes new2 = 0"
          by (auto simp: drained_def)
        have "effects w2 = effects w @ (Exporting iname # new @ new2)"
          using d2(5) s1(4) by simp
        moreover have "advances (Exporting iname # new @ new2) = 0"
          "snoozes (Exporting iname # new @ new2) = 0"
          using s1(5,6) d2(6,7) by (simp_all add: advances_def snoozes_def)
        ultimately have "\<exists>new. effects w2 = effects w @ new \<and> advances new = 0 \<and> snoozes new = 0"
          by blast
        then have "drained (st, w) (st2, w2)"
          using d2(1,2,3,4) s1(1,2) other by (simp add: drained_def)
        with Inr sw2 step show ?thesis by simp
      qed
      then show ?thesis by blast
    qed
  qed
qed

lemma advance_after_drain:
  assumes "distinct (get_studies cfg)" "Suc k < length (get_studies cfg)"
    and "reached cfg w k (st1, w1)" and "drained (st1, w1) (st2, w2)"
  shows "unless_ended (reached cfg w (Suc k)) (run_loop cfg False rnd (Suc 0) (st2, w2))"
proof -
  from assms(3) obtain new1 where r: "study_id st1 = get_studies cfg ! k" "upstream w1 = upstream w"
    "\<forall>sid. sid \<notin> set (take k (get_studies cfg)) \<longrightarrow> ready_rows w1 sid = ready_rows w sid"
    "effects w1 = effects w @ new1" "advances new1 = k" "snoozes new1 = 0"
    by (auto simp: reached_def)
  from assms(4) obtain new2 where d: "study_id st2 = study_id st1" "upstream w2 = upstream w1"
    "ready_rows w2 (study_id st1) = []"
    "\<forall>sid. sid \<noteq> study_id st1 \<longrightarrow> ready_rows w2 sid = ready_rows w1 sid"
    "effects w2 = effects w1 @ new2" "advances new2 = 0" "snoozes new2 = 0"
    by (auto simp: drained_def)
  have "get_interview_name_to_process w2 (study_id st2) (rnd 0) = None"
    using d(1,3) by (simp add: no_ready_rows)
  from loop_body_switch [OF this assms(1,2), of False] d(1) r(1)
  have step: "loop_body cfg False (rnd 0) (st2, w2) =
      Inr (st2\<lparr>study_id := get_studies cfg ! Suc k\<rparr>,
           w2\<lparr>effects := effects w2 @ [Switching (get_studies cfg ! Suc k)]\<rparr>)"
    by simp
  have t: "take (Suc k) (get_studies cfg) = take k (get_studies cfg) @ [get_studies cfg ! k]"
    using assms(2) by (simp add: take_Suc_conv_app_nth)
  have rows: "\<forall>sid. sid \<notin> set (take (Suc k) (get_studies cfg)) \<longrightarrow>
      ready_rows w2 sid = ready_rows w sid"
    using r(1,3) d(4) by (simp add: t)
  have "effects w2 @ [Switching (get_studies cfg ! Suc k)] =
      effects w @ (new1 @ new2 @ [Switching (get_studies cfg ! Suc k)])"
    using r(4) d(5) by simp
  moreover have "advances (new1 @ new2 @ [Switching (get_studies cfg ! Suc k)]) = Suc k"
    "snoozes (new1 @ new2 @ [Switching (get_studies cfg ! Suc k)]) = 0"
    using r(5,6) d(6,7) by (simp_all add: advances_def snoozes_def)
  ultimately have "\<exists>new. effects w2 @ [Switching (get_studies cfg ! Suc k)] = effects w @ new
      \<and> advances new = Suc k \<and> snoozes new = 0" by blast
  moreover have "upstream (w2\<lparr>effects := effects w2 @ [Switching (get_studies cfg ! Suc k)]\<rparr>)
      = upstream w"
    using d(2) r(2) by (simp add: upstream_def)
  ultimately have "reached cfg w (Suc k)
      (st2\<lparr>study_id := get_studies cfg ! Suc k\<rparr>,
       w2\<lparr>effects := effects w2 @ [Switching (get_studies cfg ! Suc k)]\<rparr>)"
    using rows by (simp add: reached_def)
  with step show ?thesis by simp
qed

lemma reach:
  assumes "distinct (get_studies cfg)" "all_have_assets w" "one_study_per_interview w"
    and "study_id st0 = get_studies cfg ! 0"
  shows "k < length (get_studies cfg) \<Longrightarrow>
     \<exists>n. unless_ended (reached cfg w k) (run_loop cfg False rnd n (st0, w))"
proof (induction k)
  case 0
  have "reached cfg w 0 (st0, w)"
    using assms(4) by (simp add: reached_def advances_def snoozes_def)
  then have "unless_ended (reached cfg w 0) (run_loop cfg False rnd 0 (st0, w))" by simp
  then show ?case by blast
next
  case (Suc k)
  then have ih: "\<exists>n. unless_ended (reached cfg w k) (run_loop cfg False rnd n (st0, w))"
    by simp
  show ?case
  proof (rule unless_ended_compose [OF ih])
    fix sw1 rnd1
    assume r: "reached cfg w k sw1"
    obtain st1 w1 where sw1: "sw1 = (st1, w1)" by (cases sw1) auto
    from r sw1 have "upstream w1 = upstream w" by (simp add: reached_def)
    from upstream_hyps [OF this] assms(2,3)
    have hyps: "all_have_assets w1" "one_study_per_interview w1" by simp_all
    have d: "\<exists>m. unless_ended (drained (st1, w1)) (run_loop cfg False rnd1 m (st1, w1))"
      using hyps by (rule drain)
    have "\<exists>n. unless_ended (reached cfg w (Suc k)) (run_loop cfg False rnd1 n (st1, w1))"
    proof (rule unless_ended_compose [OF d])
      fix sw2 rnd2
      assume d2: "drained (st1, w1) sw2"
      obtain st2 w2 where sw2: "sw2 = (st2, w2)" by (cases sw2) auto
      from advance_after_drain [OF assms(1) Suc.prems r [unfolded sw1] d2 [unfolded sw2], of rnd2]
      show "\<exists>n. unless_ended (reached cfg w (Suc k)) (run_loop cfg False rnd2 n sw2)"
        unfolding sw2 by blast
    qed
    then show "\<exists>n. unless_ended (reached cfg w (Suc k)) (run_loop cfg False rnd1 n sw1)"
      unfolding sw1 .
  qed
qed

lemma nth_not_in_take: "distinct xs \<Longrightarrow> k < length xs \<Longrightarrow> xs ! k \<notin> set (take k xs)"
  by (auto simp: in_set_conv_nth nth_eq_iff_index_eq)

lemma effects_since_append: "effects w' = effects w @ new \<Longrightarrow> effects_since w w' = new"
  by (simp add: effects_since_def)

text \<open>
  C9, as amended. Let the studies be distinct, each with a non-empty backlog, every
  interview belonging to one study and having at least one asset, and the exporter
  not in debug mode. Then, unless the process ends by an exception, the loop reaches
  every study \<open>k\<close> of the list: after some number of turns an interview of the
  backlog of study \<open>k\<close> has been selected, the cursor having advanced exactly
  \<open>k\<close> times, fewer than the number of studies, and never snoozed. The backlog of
  a study is drained, one recorded interview at a time, before the cursor advances.
\<close>

theorem no_starvation_when_draining:
  assumes "distinct (get_studies cfg)" and "k < length (get_studies cfg)"
    and "initial_sched cfg = Inr st0"
    and "\<forall>sid\<in>set (get_studies cfg). ready_rows w sid \<noteq> []"
    and "all_have_assets w" and "one_study_per_interview w"
  shows "\<exists>n. case run_loop cfg False rnd n (st0, w) of
               Inl ew \<Rightarrow> True
             | Inr (st, w') \<Rightarrow>
                 study_id st = get_studies cfg ! k
                 \<and> (\<exists>iname\<in>set (ready_rows w (get_studies cfg ! k)).
                       Exporting iname \<in> set (effects_since w w'))
                 \<and> advances (effects_since w w') = k
                 \<and> snoozes (effects_since w w') = 0"
proof -
  let ?Q = "\<lambda>(st, w'). study_id st = get_studies cfg ! k
                 \<and> (\<exists>iname\<in>set (ready_rows w (get_studies cfg ! k)).
                       Exporting iname \<in> set (effects_since w w'))
                 \<and> advances (effects_since w w') = k
                 \<and> snoozes (effects_since w w') = 0"
  from assms(2,3) have s0: "study_id st0 = get_studies cfg ! 0"
    by (cases "get_studies cfg") (auto simp: initial_sched_def)
  have r: "\<exists>n. unless_ended (reached cfg w k) (run_loop cfg False rnd n (st0, w))"
    using assms(1,5,6) s0 assms(2) by (rule reach)
  have "\<exists>n. unless_ended ?Q (run_loop cfg False rnd n (st0, w))"
  proof (rule unless_ended_compose [OF r])
    fix sw1 and rnd1 :: "nat \<Rightarrow> nat"
    assume r1: "reached cfg w k sw1"
    obtain st1 w1 where sw1: "sw1 = (st1, w1)" by (cases sw1) auto
    from r1 sw1 obtain new1 where r: "study_id st1 = get_studies cfg ! k" "upstream w1 = upstream w"
      "\<forall>sid. sid \<notin> set (take k (get_studies cfg)) \<longrightarrow> ready_rows w1 sid = ready_rows w sid"
      "effects w1 = effects w @ new1" "advances new1 = k" "snoozes new1 = 0"
      by (auto simp: reached_def)
    from nth_not_in_take [OF assms(1,2)] r(3)
    have same: "ready_rows w1 (get_studies cfg ! k) = ready_rows w (get_studies cfg ! k)"
      by simp
    from assms(2,4) have "ready_rows w (get_studies cfg ! k) \<noteq> []" by simp
    with same r(1) have "ready_rows w1 (study_id st1) \<noteq> []" by simp
    from select_some [OF this, of "rnd1 0"] obtain iname where
      iname: "iname \<in> set (ready_rows w1 (study_id st1))"
      and sel: "get_interview_name_to_process w1 (study_id st1) (rnd1 0) = Some iname"
      by blast
    from upstream_hyps [OF r(2)] assms(5) have a1: "all_have_assets w1" by simp
    have "unless_ended ?Q (run_loop cfg False rnd1 (Suc 0) (st1, w1))"
    proof (cases "loop_body cfg False (rnd1 0) (st1, w1)")
      case (Inl ew)
      then show ?thesis by simp
    next
      case (Inr sw2)
      obtain st2 w2 where sw2: "sw2 = (st2, w2)" by (cases sw2) auto
      with Inr have step: "loop_body cfg False (rnd1 0) (st1, w1) = Inr (st2, w2)" by simp
      from step_export [OF sel a1 step] obtain new where s:
        "study_id st2 = study_id st1"
        "effects w2 = effects w1 @ Exporting iname # new" "advances new = 0" "snoozes new = 0"
        by blast
      have "effects w2 = effects w @ (new1 @ Exporting iname # new)"
        using s(2) r(4) by simp
      from effects_since_append [OF this]
      have e: "effects_since w w2 = new1 @ Exporting iname # new" .
      have "advances (effects_since w w2) = k" "snoozes (effects_since w w2) = 0"
        using r(5,6) s(3,4) unfolding e by (simp_all add: advances_def snoozes_def)
      moreover have "Exporting iname \<in> set (effects_since w w2)" unfolding e by simp
      moreover have "iname \<in> set (ready_rows w (get_studies cfg ! k))"
        using iname same r(1) by simp
      ultimately have "?Q (st2, w2)" using s(1) r(1) by auto
      with step show ?thesis by simp
    qed
    then show "\<exists>n. unless_ended ?Q (run_loop cfg False rnd1 n sw1)"
      unfolding sw1 by blast
  qed
  then obtain n where n: "unless_ended ?Q (run_loop cfg False rnd n (st0, w))" by blast
  have "case run_loop cfg False rnd n (st0, w) of
          Inl ew \<Rightarrow> True
        | Inr (st, w') \<Rightarrow>
            study_id st = get_studies cfg ! k
            \<and> (\<exists>iname\<in>set (ready_rows w (get_studies cfg ! k)).
                  Exporting iname \<in> set (effects_since w w'))
            \<and> advances (effects_since w w') = k
            \<and> snoozes (effects_since w w') = 0"
    using n by (cases "run_loop cfg False rnd n (st0, w)") auto
  then show ?thesis by (rule exI)
qed

lemma two_study_debug_step:
  "export_interview example_config True example_interview (two_study_world\<lparr>effects := es\<rparr>) =
     Inr (two_study_world\<lparr>effects := es @ [Exporting example_interview]\<rparr>)"
  by (simp add: export_interview_def transfer_def get_pipeline_exports_def
      get_pipeline_streams_def get_pipeline_frames_def get_openface_assets_def fetch_record_def
      two_study_world_def parts_of_def copy_asset_def to_sql_def emit_def
      example_destinations [unfolded example_interview_def] example_interview_def)

lemma two_study_select:
  "get_interview_name_to_process (two_study_world\<lparr>effects := es\<rparr>) ''ChicagoA'' r =
     Some example_interview"
  by (simp add: get_interview_name_to_process_def order_by_random_limit_1_def fetch_record_def
      ready_rows_def left_join_using_def two_study_world_def example_interview_def)

lemma two_study_debug_run:
  "run_loop example_config True rnd n
     (\<lparr>study_id = ''ChicagoA'', COUNTER = c\<rparr>, two_study_world\<lparr>effects := es\<rparr>) =
   Inr (\<lparr>study_id = ''ChicagoA'', COUNTER = c + n\<rparr>,
        two_study_world\<lparr>effects := es @ replicate n (Exporting example_interview)\<rparr>)"
proof (induction n arbitrary: rnd c es)
  case 0
  then show ?case by simp
next
  case (Suc n)
  have "loop_body example_config True (rnd 0)
      (\<lparr>study_id = ''ChicagoA'', COUNTER = c\<rparr>, two_study_world\<lparr>effects := es\<rparr>) =
    Inr (\<lparr>study_id = ''ChicagoA'', COUNTER = c + 1\<rparr>,
         two_study_world\<lparr>effects := es @ [Exporting example_interview]\<rparr>)"
    using loop_body_select [of "two_study_world\<lparr>effects := es\<rparr>"
        "\<lparr>study_id = ''ChicagoA'', COUNTER = c\<rparr>" "rnd 0" example_interview example_config True]
    by (simp add: two_study_select two_study_debug_step)
  then show ?case
    using Suc.IH [of "\<lambda>i. rnd (Suc i)" "c + 1" "es @ [Exporting example_interview]"]
    by (simp add: replicate_app_Cons_same)
qed

text \<open>
  The claim C9 as the specification states it fails in debug mode: nothing is written
  to the ledger, the one interview of the first study is selected at every turn, and
  the second study, whose backlog is not empty, is never reached.
\<close>

theorem starvation_counterexample:
  "ready_rows two_study_world ''ChicagoA'' \<noteq> []
   \<and> ready_rows two_study_world ''ChicagoB'' = [''ChicagoB-YY2-followupInterview'']
   \<and> (\<forall>n rnd. run_loop example_config True rnd n
          (\<lparr>study_id = ''ChicagoA'', COUNTER = 0\<rparr>, two_study_world) =
        Inr (\<lparr>study_id = ''ChicagoA'', COUNTER = n\<rparr>,
             two_study_world\<lparr>effects := replicate n (Exporting ''ChicagoA-XX1-followupInterview'')\<rparr>))"
proof -
  have e: "two_study_world\<lparr>effects := []\<rparr> = two_study_world"
    by (simp add: two_study_world_def)
  have "ready_rows two_study_world ''ChicagoA'' \<noteq> []"
    "ready_rows two_study_world ''ChicagoB'' = [''ChicagoB-YY2-followupInterview'']"
    by (simp_all add: ready_rows_def left_join_using_def two_study_world_def)
  moreover have "run_loop example_config True rnd n
          (\<lparr>study_id = ''ChicagoA'', COUNTER = 0\<rparr>, two_study_world) =
        Inr (\<lparr>study_id = ''ChicagoA'', COUNTER = n\<rparr>,
             two_study_world\<lparr>effects := replicate n (Exporting ''ChicagoA-XX1-followupInterview'')\<rparr>)"
    for n rnd
    using two_study_debug_run [of rnd n 0 "[]"] unfolding e example_interview_def by simp
  ultimately show ?thesis by blast
qed

lemma two_study_run:
  "\<not> isl (run_loop example_config False (\<lambda>i. 0) (Suc (Suc (Suc 0)))
            (\<lparr>study_id = ''ChicagoA'', COUNTER = 0\<rparr>, two_study_world))
   \<and> study_id (fst (projr (run_loop example_config False (\<lambda>i. 0) (Suc (Suc (Suc 0)))
            (\<lparr>study_id = ''ChicagoA'', COUNTER = 0\<rparr>, two_study_world)))) = ''ChicagoB''
   \<and> advances (effects (world_after (run_loop example_config False (\<lambda>i. 0) (Suc (Suc (Suc 0)))
            (\<lparr>study_id = ''ChicagoA'', COUNTER = 0\<rparr>, two_study_world)))) = 1"
  by code_simp

theorem no_starvation_when_draining_witness:
  "(\<exists>n. case run_loop example_config False (\<lambda>i. 0) n
             (\<lparr>study_id = ''ChicagoA'', COUNTER = 0\<rparr>, two_study_world) of
           Inl ew \<Rightarrow> True
         | Inr (st, w') \<Rightarrow>
             study_id st = ''ChicagoB''
             \<and> (\<exists>iname\<in>set (ready_rows two_study_world ''ChicagoB'').
                   Exporting iname \<in> set (effects_since two_study_world w'))
             \<and> advances (effects_since two_study_world w') = 1
             \<and> snoozes (effects_since two_study_world w') = 0)
   \<and> \<not> isl (run_loop example_config False (\<lambda>i. 0) (Suc (Suc (Suc 0)))
            (\<lparr>study_id = ''ChicagoA'', COUNTER = 0\<rparr>, two_study_world))
   \<and> study_id (fst (projr (run_loop example_config False (\<lambda>i. 0) (Suc (Suc (Suc 0)))
            (\<lparr>study_id = ''ChicagoA'', COUNTER = 0\<rparr>, two_study_world)))) = ''ChicagoB''"
proof -
  have d: "distinct (get_studies example_config)" by (simp add: example_studies)
  have k: "1 < length (get_studies example_config)" by (simp add: example_studies)
  have i: "initial_sched example_config = Inr \<lparr>study_id = ''ChicagoA'', COUNTER = 0\<rparr>"
    by (simp add: initial_sched_def example_studies)
  have rb: "ready_rows two_study_world ''ChicagoB'' = [''ChicagoB-YY2-followupInterview'']"
    by (simp add: ready_rows_def left_join_using_def two_study_world_def)
  have nth: "get_studies example_config ! 1 = ''ChicagoB''" by (simp add: example_studies)
  have b: "\<forall>sid\<in>set (get_studies example_config). ready_rows two_study_world sid \<noteq> []"
    by (simp add: example_studies ready_rows_def left_join_using_def two_study_world_def)
  have a: "all_have_assets two_study_world"
    by (simp add: all_have_assets_def two_study_world_def)
  have o: "one_study_per_interview two_study_world"
    by (simp add: one_study_per_interview_def two_study_world_def)
  from no_starvation_when_draining [OF d k i b a o, of "\<lambda>i. 0"]
  have "\<exists>n. case run_loop example_config False (\<lambda>i. 0) n
             (\<lparr>study_id = ''ChicagoA'', COUNTER = 0\<rparr>, two_study_world) of
           Inl ew \<Rightarrow> True
         | Inr (st, w') \<Rightarrow>
             study_id st = ''ChicagoB''
             \<and> (\<exists>iname\<in>set (ready_rows two_study_world ''ChicagoB'').
                   Exporting iname \<in> set (effects_since two_study_world w'))
             \<and> advances (effects_since two_study_world w') = 1
             \<and> snoozes (effects_since two_study_world w') = 0"
    unfolding nth .
  with two_study_run show ?thesis by blast
qed

end
